theory Spec2Isabelle
  imports Complex_Main
begin

section \<open>Data model (TeamContext)\<close>

text \<open>
  The in-game lineup state machine of the team management application. The types
  follow the interfaces of the team context: \<open>PlayerLineupState\<close> is one player's state
  inside one game, \<open>Game\<close> carries the clock and the lineup.

  Conventions of the embedding:
  \<^item> a JavaScript \<open>number\<close> is an \<open>int\<close>: \<open>Date.now()\<close> is a whole number of milliseconds,
    and every value the program writes to a seconds field or a counter is \<open>0\<close>, an
    increment, or a result of \<open>Math.round\<close>; the one division (by 1000) is done in
    the rationals, inside \<open>Math_round\<close>;
  \<^item> \<open>Date.now()\<close> is a parameter \<open>now\<close> of each operation;
  \<^item> an optional or nullable field is an \<open>option\<close> (\<open>None\<close> for \<open>undefined\<close> and \<open>null\<close>);
  \<^item> identifiers and field coordinates are type parameters \<open>'id\<close> and \<open>'pos\<close>: the
    lineup operations only compare identifiers and only copy coordinates;
  \<^item> \<open>setGamesState (prev => ...)\<close> is a function from the list of games to the new list.
\<close>

text \<open>
  The location of a player in a game: \<open>'bench'\<close>, \<open>'field'\<close> (\<open>OnField\<close>, as \<open>Field\<close> is the
  field of a relation in HOL) and \<open>'inactive'\<close>.
\<close>

datatype Location = Bench | OnField | Inactive

datatype GameLocation = Home | Away

datatype TimerStatus = Stopped | Running

record ('id, 'pos) PlayerLineupState =
  playerId :: 'id
  location :: Location
  position :: "'pos option"
  playtimeSeconds :: int
  playtimerStartTime :: "int option"
  isStarter :: "bool option"
  subbedOnCount :: int
  subbedOffCount :: int

record ('id, 'pos) Game =
  gameId :: 'id
  opponent :: string
  date :: string
  time :: string
  gameLocation :: GameLocation
  homeScore :: "int option"
  awayScore :: "int option"
  timerStatus :: "TimerStatus option"
  timerStartTime :: "int option"
  timerElapsedSeconds :: "int option"
  isExplicitlyFinished :: "bool option"
  lineup :: "('id, 'pos) PlayerLineupState list option"

subsection \<open>JavaScript helpers\<close>

text \<open>Truthiness of a \<open>number | null\<close>: \<open>null\<close>, \<open>undefined\<close> and \<open>0\<close> are falsy.\<close>

definition truthy :: "int option \<Rightarrow> bool" where
  "truthy t = (case t of None \<Rightarrow> False | Some v \<Rightarrow> v \<noteq> 0)"

text \<open>\<open>x ?? 0\<close> and \<open>x || 0\<close> on an optional number, \<open>b ?? false\<close> on an optional boolean.\<close>

definition orZero :: "int option \<Rightarrow> int" where
  "orZero t = (case t of None \<Rightarrow> 0 | Some v \<Rightarrow> v)"

definition orFalse :: "bool option \<Rightarrow> bool" where
  "orFalse b = (case b of None \<Rightarrow> False | Some v \<Rightarrow> v)"

text \<open>\<open>Math.round\<close>: the nearest integer, a tie going up.\<close>

definition Math_round :: "rat \<Rightarrow> int" where
  "Math_round x = \<lfloor>x + 1 / 2\<rfloor>"

text \<open>\<open>Math.round(seconds + (now - start) / 1000)\<close>, the banking expression of every timer.\<close>

definition banked :: "int \<Rightarrow> int \<Rightarrow> int \<Rightarrow> int" where
  "banked seconds now start = Math_round (of_int seconds + of_int (now - start) / 1000)"

text \<open>\<open>Array.prototype.findIndex\<close> (\<open>None\<close> for \<open>-1\<close>); \<open>Array.prototype.find\<close> is \<open>List.find\<close>.\<close>

fun findIndex :: "('a \<Rightarrow> bool) \<Rightarrow> 'a list \<Rightarrow> nat option" where
  "findIndex P [] = None"
| "findIndex P (x # xs) = (if P x then Some 0 else map_option Suc (findIndex P xs))"

section \<open>The move operation\<close>

text \<open>
  The body of \<open>movePlayerInGame\<close> on the copied \<open>playerState\<close>: timer logic (stop when
  leaving field or inactive with a running timer, start when entering the field while the
  game runs, clear otherwise when the target is not the field), substitution counters,
  then the structural update. \<open>sourceLocation\<close> is the caller's argument.
\<close>

definition movedPlayerState ::
  "int \<Rightarrow> bool \<Rightarrow> Location \<Rightarrow> Location \<Rightarrow> 'pos option \<Rightarrow>
   ('id, 'pos) PlayerLineupState \<Rightarrow> ('id, 'pos) PlayerLineupState" where
  "movedPlayerState now isGameRunning sourceLocation targetLocation newPosition playerState =
    (let stopping = ((sourceLocation = OnField \<or> sourceLocation = Inactive)
                      \<and> truthy (playtimerStartTime playerState));
         updatedPlaytime =
           (if stopping
            then banked (playtimeSeconds playerState) now (orZero (playtimerStartTime playerState))
            else playtimeSeconds playerState);
         stoppedStartTime = (if stopping then None else playtimerStartTime playerState);
         updatedStartTime =
           (if targetLocation = OnField \<and> isGameRunning
            then (if stoppedStartTime = None then Some now else stoppedStartTime)
            else if targetLocation \<noteq> OnField then None
            else stoppedStartTime);
         updatedSubbedOnCount =
           (if sourceLocation = Bench \<and> targetLocation = OnField
            then subbedOnCount playerState + 1 else subbedOnCount playerState);
         updatedSubbedOffCount =
           (if sourceLocation = Bench \<and> targetLocation = OnField then subbedOffCount playerState
            else if sourceLocation = OnField \<and> targetLocation = Bench
            then subbedOffCount playerState + 1 else subbedOffCount playerState)
     in playerState
          \<lparr> location := targetLocation,
            position := (if targetLocation = OnField then newPosition else None),
            playtimeSeconds := updatedPlaytime,
            playtimerStartTime := updatedStartTime,
            subbedOnCount := updatedSubbedOnCount,
            subbedOffCount := updatedSubbedOffCount \<rparr>)"

text \<open>
  \<open>movePlayerInGame\<close>: the game is the first one with the id, the player the first lineup
  entry with the id; a missing game, a missing lineup or a missing player leaves the list
  of games as it was.
\<close>

definition movePlayerInGame ::
  "int \<Rightarrow> 'id \<Rightarrow> 'id \<Rightarrow> Location \<Rightarrow> Location \<Rightarrow> 'pos option \<Rightarrow>
   ('id, 'pos) Game list \<Rightarrow> ('id, 'pos) Game list" where
  "movePlayerInGame now gid pid sourceLocation targetLocation newPosition prevGames =
    (case findIndex (\<lambda>g. gameId g = gid) prevGames of
       None \<Rightarrow> prevGames
     | Some gameIndex \<Rightarrow>
         (let game = prevGames ! gameIndex in
          case lineup game of
            None \<Rightarrow> prevGames
          | Some newLineup \<Rightarrow>
              (let isGameRunning = (timerStatus game = Some Running) in
               case findIndex (\<lambda>p. playerId p = pid) newLineup of
                 None \<Rightarrow> prevGames
               | Some playerIndex \<Rightarrow>
                   prevGames[gameIndex := game
                     \<lparr> lineup := Some (newLineup[playerIndex :=
                          movedPlayerState now isGameRunning sourceLocation targetLocation
                            newPosition (newLineup ! playerIndex)]) \<rparr>])))"

text \<open>Reading a game and a lineup entry by id, as \<open>games.find\<close> and \<open>lineup.find\<close> do.\<close>

definition findGame :: "('id, 'pos) Game list \<Rightarrow> 'id \<Rightarrow> ('id, 'pos) Game option" where
  "findGame games gid = find (\<lambda>g. gameId g = gid) games"

definition findPlayer ::
  "('id, 'pos) Game list \<Rightarrow> 'id \<Rightarrow> 'id \<Rightarrow> ('id, 'pos) PlayerLineupState option" where
  "findPlayer games gid pid =
    (case findGame games gid of
       None \<Rightarrow> None
     | Some g \<Rightarrow> (case lineup g of None \<Rightarrow> None | Some l \<Rightarrow> find (\<lambda>p. playerId p = pid) l))"

definition gameRunning :: "('id, 'pos) Game list \<Rightarrow> 'id \<Rightarrow> bool" where
  "gameRunning games gid =
    (case findGame games gid of None \<Rightarrow> False | Some g \<Rightarrow> timerStatus g = Some Running)"

section \<open>The game clock\<close>

text \<open>
  \<open>createDefaultLineup\<close>: every roster player on the bench, nothing played, no timer, not
  a starter, no substitutions. Only the id of a roster player is read.
\<close>

definition createDefaultLineup :: "'id list \<Rightarrow> ('id, 'pos) PlayerLineupState list" where
  "createDefaultLineup players =
    map (\<lambda>p. \<lparr> playerId = p, location = Bench, position = None, playtimeSeconds = 0,
               playtimerStartTime = None, isStarter = Some False,
               subbedOnCount = 0, subbedOffCount = 0 \<rparr>) players"

text \<open>
  \<open>startGameTimer\<close>, the update of a game that has the id and is not explicitly finished.
  \<open>currentDate\<close> and \<open>currentTime\<close> are \<open>getCurrentDate()\<close> and \<open>getCurrentTime()\<close>.
\<close>

definition startedPlayer ::
  "int \<Rightarrow> bool \<Rightarrow> ('id, 'pos) PlayerLineupState \<Rightarrow> ('id, 'pos) PlayerLineupState" where
  "startedPlayer now isStartingFresh p =
    (let isFieldPlayer = (location p = OnField) in
     p \<lparr> playtimerStartTime := (if isFieldPlayer then Some now else playtimerStartTime p),
         isStarter := Some (if isStartingFresh then isFieldPlayer else orFalse (isStarter p)) \<rparr>)"

definition startedGame ::
  "int \<Rightarrow> string \<Rightarrow> string \<Rightarrow> ('id, 'pos) Game \<Rightarrow> ('id, 'pos) Game" where
  "startedGame now currentDate currentTime g =
    (let isStartingFresh = (orZero (timerElapsedSeconds g) = 0);
         newLineup = map_option (map (startedPlayer now isStartingFresh)) (lineup g)
     in g \<lparr> date := (if date g \<noteq> currentDate then currentDate else date g),
           time := (if time g \<noteq> currentTime then currentTime else time g),
           timerStatus := Some Running,
           timerStartTime := Some now,
           isExplicitlyFinished := Some False,
           lineup := newLineup \<rparr>)"

definition startGameTimer ::
  "int \<Rightarrow> string \<Rightarrow> string \<Rightarrow> 'id \<Rightarrow> ('id, 'pos) Game list \<Rightarrow> ('id, 'pos) Game list" where
  "startGameTimer now currentDate currentTime gid prev =
    map (\<lambda>g. if gameId g = gid \<and> \<not> orFalse (isExplicitlyFinished g)
             then startedGame now currentDate currentTime g else g) prev"

text \<open>
  \<open>stopGameTimer\<close>: only for a running game with a truthy start time. A player on the
  field, or inactive, with a truthy start time banks it; the others are unchanged.
\<close>

definition stoppedPlayer ::
  "int \<Rightarrow> ('id, 'pos) PlayerLineupState \<Rightarrow> ('id, 'pos) PlayerLineupState" where
  "stoppedPlayer now p =
    (if location p = OnField \<and> truthy (playtimerStartTime p)
     then p \<lparr> playtimeSeconds := banked (playtimeSeconds p) now (orZero (playtimerStartTime p)),
               playtimerStartTime := None \<rparr>
     else if location p = Inactive \<and> truthy (playtimerStartTime p)
     then p \<lparr> playtimeSeconds := banked (playtimeSeconds p) now (orZero (playtimerStartTime p)),
               playtimerStartTime := None \<rparr>
     else p)"

definition stoppedGame :: "int \<Rightarrow> ('id, 'pos) Game \<Rightarrow> ('id, 'pos) Game" where
  "stoppedGame now g =
    (let newElapsedSeconds =
           banked (orZero (timerElapsedSeconds g)) now (orZero (timerStartTime g));
         newLineup = map_option (map (stoppedPlayer now)) (lineup g)
     in g \<lparr> timerStatus := Some Stopped, timerStartTime := None,
           timerElapsedSeconds := Some newElapsedSeconds, lineup := newLineup \<rparr>)"

definition stopGameTimer :: "int \<Rightarrow> 'id \<Rightarrow> ('id, 'pos) Game list \<Rightarrow> ('id, 'pos) Game list" where
  "stopGameTimer now gid prev =
    map (\<lambda>g. if gameId g = gid \<and> timerStatus g = Some Running \<and> truthy (timerStartTime g)
             then stoppedGame now g else g) prev"

text \<open>
  \<open>markGameAsFinished\<close>: stops a running clock first (players on the field or inactive
  with a truthy start time bank it), then sets \<open>isExplicitlyFinished\<close>.
\<close>

definition finishedPlayer ::
  "int \<Rightarrow> ('id, 'pos) PlayerLineupState \<Rightarrow> ('id, 'pos) PlayerLineupState" where
  "finishedPlayer now p =
    (if (location p = OnField \<or> location p = Inactive) \<and> truthy (playtimerStartTime p)
     then p \<lparr> playtimeSeconds := banked (playtimeSeconds p) now (orZero (playtimerStartTime p)),
               playtimerStartTime := None \<rparr>
     else p)"

definition finishedGame :: "int \<Rightarrow> ('id, 'pos) Game \<Rightarrow> ('id, 'pos) Game" where
  "finishedGame now g =
    (let wasRunning = (timerStatus g = Some Running \<and> truthy (timerStartTime g));
         finalElapsedSeconds =
           (if wasRunning
            then banked (orZero (timerElapsedSeconds g)) now (orZero (timerStartTime g))
            else orZero (timerElapsedSeconds g));
         finalLineup =
           (if wasRunning then map_option (map (finishedPlayer now)) (lineup g) else lineup g)
     in g \<lparr> timerStatus := Some Stopped, timerStartTime := None,
           timerElapsedSeconds := Some finalElapsedSeconds,
           isExplicitlyFinished := Some True, lineup := finalLineup \<rparr>)"

definition markGameAsFinished ::
  "int \<Rightarrow> 'id \<Rightarrow> ('id, 'pos) Game list \<Rightarrow> ('id, 'pos) Game list" where
  "markGameAsFinished now gid prev =
    map (\<lambda>g. if gameId g = gid then finishedGame now g else g) prev"

text \<open>
  \<open>startPlayerTimerInGame\<close>, the individual start: only while the game runs, only for a
  player on the field, and only when that player's timer is not already running.
\<close>

definition startPlayerTimerInGame ::
  "int \<Rightarrow> 'id \<Rightarrow> 'id \<Rightarrow> ('id, 'pos) Game list \<Rightarrow> ('id, 'pos) Game list" where
  "startPlayerTimerInGame now gid pid prevGames =
    map (\<lambda>game.
      (case lineup game of
         None \<Rightarrow> game
       | Some l \<Rightarrow>
           if gameId game = gid
           then (if timerStatus game \<noteq> Some Running then game
                 else game \<lparr> lineup := Some (map (\<lambda>p.
                        if playerId p = pid \<and> location p = OnField
                           \<and> \<not> truthy (playtimerStartTime p)
                        then p \<lparr> playtimerStartTime := Some now \<rparr> else p) l) \<rparr>)
           else game)) prevGames"

section \<open>Sequences of calls\<close>

text \<open>
  A call of one of the context functions on the game \<open>gid\<close>, with the value \<open>Date.now()\<close>
  has when it runs.
\<close>

datatype ('id, 'pos) Call =
    MoveCall int 'id Location Location "'pos option"
  | StartCall int string string
  | StopCall int
  | FinishCall int

fun callTime :: "('id, 'pos) Call \<Rightarrow> int" where
  "callTime (MoveCall now pid src tgt pos) = now"
| "callTime (StartCall now cd ct) = now"
| "callTime (StopCall now) = now"
| "callTime (FinishCall now) = now"

fun applyCall :: "'id \<Rightarrow> ('id, 'pos) Call \<Rightarrow> ('id, 'pos) Game list \<Rightarrow> ('id, 'pos) Game list" where
  "applyCall gid (MoveCall now pid src tgt pos) games = movePlayerInGame now gid pid src tgt pos games"
| "applyCall gid (StartCall now cd ct) games = startGameTimer now cd ct gid games"
| "applyCall gid (StopCall now) games = stopGameTimer now gid games"
| "applyCall gid (FinishCall now) games = markGameAsFinished now gid games"

fun runCalls :: "'id \<Rightarrow> ('id, 'pos) Game list \<Rightarrow> ('id, 'pos) Call list \<Rightarrow> ('id, 'pos) Game list" where
  "runCalls gid games [] = games"
| "runCalls gid games (c # cs) = runCalls gid (applyCall gid c games) cs"

text \<open>
  A call is truthful when the source location a move passes is the stored location of the
  player it moves (the drag item carries the location the icon was rendered with).
\<close>

fun truthfulCall :: "'id \<Rightarrow> ('id, 'pos) Game list \<Rightarrow> ('id, 'pos) Call \<Rightarrow> bool" where
  "truthfulCall gid games (MoveCall now pid src tgt pos) =
     (case findPlayer games gid pid of None \<Rightarrow> True | Some e \<Rightarrow> location e = src)"
| "truthfulCall gid games c = True"

fun truthful :: "'id \<Rightarrow> ('id, 'pos) Game list \<Rightarrow> ('id, 'pos) Call list \<Rightarrow> bool" where
  "truthful gid games [] = True"
| "truthful gid games (c # cs) =
     (truthfulCall gid games c \<and> truthful gid (applyCall gid c games) cs)"

text \<open>
  The history of one player: the stored entry before the first call and after each call.
  The transitions from \<open>a\<close> to \<open>b\<close> are counted on the history of locations alone.
\<close>

fun playerTrace ::
  "'id \<Rightarrow> 'id \<Rightarrow> ('id, 'pos) Game list \<Rightarrow> ('id, 'pos) Call list \<Rightarrow>
   ('id, 'pos) PlayerLineupState option list" where
  "playerTrace gid pid games [] = [findPlayer games gid pid]"
| "playerTrace gid pid games (c # cs) =
     findPlayer games gid pid # playerTrace gid pid (applyCall gid c games) cs"

fun transitions :: "Location \<Rightarrow> Location \<Rightarrow> Location option list \<Rightarrow> nat" where
  "transitions a b (x # y # zs) =
     (if x = Some a \<and> y = Some b then 1 else 0) + transitions a b (y # zs)"
| "transitions a b zs = 0"

section \<open>The game page: clock button and substitution planning\<close>

text \<open>
  \<open>handleTimerClick\<close>: nothing without a game or on a finished game; a running clock is
  stopped; otherwise the clock is started when \<open>shouldStart\<close> holds (the comparison of the
  scheduled date with today and the answer to the confirmation dialog).
\<close>

definition handleTimerClick ::
  "int \<Rightarrow> string \<Rightarrow> string \<Rightarrow> bool \<Rightarrow> 'id \<Rightarrow> ('id, 'pos) Game list \<Rightarrow> ('id, 'pos) Game list" where
  "handleTimerClick now currentDate currentTime shouldStart gid games =
    (case findGame games gid of
       None \<Rightarrow> games
     | Some game \<Rightarrow>
         if isExplicitlyFinished game = Some True then games
         else if timerStatus game = Some Running then stopGameTimer now gid games
         else if shouldStart then startGameTimer now currentDate currentTime gid games
         else games)"

text \<open>
  The staged plan is a JavaScript \<open>Map\<close> from the bench player's id to the swap: a list of
  pairs in insertion order. \<open>Map_delete\<close> and \<open>Map_set\<close> are \<open>Map.prototype.delete\<close> and
  \<open>Map.prototype.set\<close> (a present key keeps its place, a new key goes last).
\<close>

record ('id, 'pos) PlannedSwap =
  targetFieldPlayerId :: 'id
  targetPosition :: "'pos option"

type_synonym ('id, 'pos) PlannedSwaps = "('id \<times> ('id, 'pos) PlannedSwap) list"

definition Map_delete :: "'k \<Rightarrow> ('k \<times> 'v) list \<Rightarrow> ('k \<times> 'v) list" where
  "Map_delete k m = filter (\<lambda>kv. fst kv \<noteq> k) m"

definition Map_set :: "'k \<Rightarrow> 'v \<Rightarrow> ('k \<times> 'v) list \<Rightarrow> ('k \<times> 'v) list" where
  "Map_set k v m =
    (if k \<in> set (map fst m) then map (\<lambda>kv. if fst kv = k then (k, v) else kv) m
     else m @ [(k, v)])"

definition Map_get :: "('k \<times> 'v) list \<Rightarrow> 'k \<Rightarrow> 'v option" where
  "Map_get m k = map_option snd (find (\<lambda>kv. fst kv = k) m)"

record ('id, 'pos) PlanningState =
  isPlanningSubs :: bool
  plannedSwaps :: "('id, 'pos) PlannedSwaps"

text \<open>
  \<open>handlePlanDrop\<close>: the first plan that already targets the field player is removed,
  then any plan of the dragged player, then the new plan is set.
\<close>

definition handlePlanDrop ::
  "'id \<Rightarrow> 'id \<Rightarrow> 'pos option \<Rightarrow> ('id, 'pos) PlannedSwaps \<Rightarrow> ('id, 'pos) PlannedSwaps" where
  "handlePlanDrop draggedPlayerId targetPlayerId targetPos prev =
    (let existingTarget = find (\<lambda>kv. targetFieldPlayerId (snd kv) = targetPlayerId) prev;
         withoutTarget =
           (case existingTarget of None \<Rightarrow> prev | Some kv \<Rightarrow> Map_delete (fst kv) prev);
         withoutDragged = Map_delete draggedPlayerId withoutTarget
     in Map_set draggedPlayerId
          \<lparr> targetFieldPlayerId = targetPlayerId, targetPosition = targetPos \<rparr> withoutDragged)"

definition handleTogglePlanningMode ::
  "bool \<Rightarrow> ('id, 'pos) PlanningState \<Rightarrow> ('id, 'pos) PlanningState" where
  "handleTogglePlanningMode isFinished ui =
    (if isFinished then ui
     else ui \<lparr> isPlanningSubs := \<not> isPlanningSubs ui, plannedSwaps := [] \<rparr>)"

definition handleCancelPlan ::
  "('id, 'pos) Game list \<times> ('id, 'pos) PlanningState \<Rightarrow>
   ('id, 'pos) Game list \<times> ('id, 'pos) PlanningState" where
  "handleCancelPlan st = (fst st, (snd st) \<lparr> isPlanningSubs := False, plannedSwaps := [] \<rparr>)"

text \<open>
  \<open>handleConfirmPlan\<close>: \<open>plannedSwaps.forEach\<close> in insertion order, two moves per plan, each
  with its own \<open>Date.now()\<close>: \<open>clock k\<close> is the time of the \<open>k\<close>-th call of
  \<open>movePlayerInGame\<close>. Without a game nothing happens, the plan stays.
\<close>

fun executeSwaps ::
  "(nat \<Rightarrow> int) \<Rightarrow> nat \<Rightarrow> 'id \<Rightarrow> ('id, 'pos) PlannedSwaps \<Rightarrow>
   ('id, 'pos) Game list \<Rightarrow> ('id, 'pos) Game list" where
  "executeSwaps clock k gid [] games = games"
| "executeSwaps clock k gid ((benchPlayerId, swap) # rest) games =
     executeSwaps clock (k + 2) gid rest
       (movePlayerInGame (clock (k + 1)) gid benchPlayerId Bench OnField (targetPosition swap)
          (movePlayerInGame (clock k) gid (targetFieldPlayerId swap) OnField Bench None games))"

definition handleConfirmPlan ::
  "(nat \<Rightarrow> int) \<Rightarrow> 'id \<Rightarrow> ('id, 'pos) Game list \<times> ('id, 'pos) PlanningState \<Rightarrow>
   ('id, 'pos) Game list \<times> ('id, 'pos) PlanningState" where
  "handleConfirmPlan clock gid st =
    (case findGame (fst st) gid of
       None \<Rightarrow> st
     | Some game \<Rightarrow>
         (executeSwaps clock 0 (gameId game) (plannedSwaps (snd st)) (fst st),
          (snd st) \<lparr> isPlanningSubs := False, plannedSwaps := [] \<rparr>))"

section \<open>The game page: drag and drop, staged plans\<close>

text \<open>
  \<open>handleDropInGame\<close>, the drop of a dragged player on the field, the bench or the inactive
  zone. The drag item carries the id, the location and the position the icon was rendered
  with. A coordinate is a pair of percentages (rationals here); \<open>fieldDimensions\<close> is the
  measured width and height of the field, the icon is 40 by 58 pixels.
  \<open>currentGameLineup\<close>, the page's mirror of the lineup, is read from the game. A drop on
  the field inside the icon of another field player swaps the two; a drop on the bench
  or on the inactive zone moves the player only when the source differs from the target.
\<close>

record ('id, 'pos) DragItem =
  itemId :: 'id
  itemLocation :: Location
  itemPosition :: "'pos option"

definition overlapsIcon :: "rat \<Rightarrow> rat \<Rightarrow> rat \<Rightarrow> rat \<Rightarrow> (rat \<times> rat) option \<Rightarrow> bool" where
  "overlapsIcon iconWPercent iconHPercent xPercent yPercent pos =
    (case pos of
       None \<Rightarrow> False
     | Some (px, py) \<Rightarrow>
         (let pL = px - iconWPercent / 2; pR = px + iconWPercent / 2;
              pT = py - iconHPercent / 2; pB = py + iconHPercent / 2
          in xPercent > pL \<and> xPercent < pR \<and> yPercent > pT \<and> yPercent < pB))"

definition handleDropInGame ::
  "(nat \<Rightarrow> int) \<Rightarrow> bool \<Rightarrow> rat \<times> rat \<Rightarrow> 'id \<Rightarrow> ('id, rat \<times> rat) DragItem \<Rightarrow> Location \<Rightarrow>
   rat option \<Rightarrow> rat option \<Rightarrow> ('id, rat \<times> rat) Game list \<Rightarrow> ('id, rat \<times> rat) Game list" where
  "handleDropInGame clock planning fieldDimensions gid item targetLocation xPercent yPercent games =
    (case findGame games gid of
       None \<Rightarrow> games
     | Some game \<Rightarrow>
         if planning then games
         else
           (let droppedPlayerId = itemId item;
                sourceLocation = itemLocation item;
                nextLineupStructure = (case lineup game of None \<Rightarrow> [] | Some l \<Rightarrow> l)
            in case findIndex (\<lambda>p. playerId p = droppedPlayerId) nextLineupStructure of
                 None \<Rightarrow> games
               | Some droppedPlayerIndex \<Rightarrow>
                   (let playerBeingMoved = nextLineupStructure ! droppedPlayerIndex in
                    case (targetLocation, xPercent, yPercent) of
                      (OnField, Some x, Some y) \<Rightarrow>
                        (let currentFieldPlayers =
                               filter (\<lambda>fp. location fp = OnField \<and> playerId fp \<noteq> droppedPlayerId)
                                 nextLineupStructure;
                             iconWPercent =
                               (if fst fieldDimensions > 0 then 40 / fst fieldDimensions * 100 else 5);
                             iconHPercent =
                               (if snd fieldDimensions > 0 then 58 / snd fieldDimensions * 100 else 5)
                         in case find (\<lambda>fp. overlapsIcon iconWPercent iconHPercent x y (position fp))
                                   currentFieldPlayers of
                              Some targetPlayer \<Rightarrow>
                                (case findIndex (\<lambda>p. playerId p = playerId targetPlayer)
                                        nextLineupStructure of
                                   None \<Rightarrow> games
                                 | Some targetPlayerIndex \<Rightarrow>
                                     (let playerBeingReplaced = nextLineupStructure ! targetPlayerIndex in
                                      movePlayerInGame (clock 1) (gameId game) droppedPlayerId
                                        sourceLocation OnField (position playerBeingReplaced)
                                        (movePlayerInGame (clock 0) (gameId game)
                                           (playerId playerBeingReplaced) OnField sourceLocation
                                           (if sourceLocation = OnField then position playerBeingMoved
                                            else None)
                                           games)))
                            | None \<Rightarrow>
                                movePlayerInGame (clock 0) (gameId game) droppedPlayerId
                                  sourceLocation OnField (Some (x, y)) games)
                    | (Bench, _, _) \<Rightarrow>
                        if sourceLocation \<noteq> targetLocation
                        then movePlayerInGame (clock 0) (gameId game) droppedPlayerId
                               sourceLocation targetLocation None games
                        else games
                    | (Inactive, _, _) \<Rightarrow>
                        if sourceLocation \<noteq> targetLocation
                        then movePlayerInGame (clock 0) (gameId game) droppedPlayerId
                               sourceLocation targetLocation None games
                        else games
                    | _ \<Rightarrow> games)))"

text \<open>
  The invariant of the staged plan: no bench player is a key twice, no field player is a
  target twice. \<open>stagePlans\<close> stages a list of drops, one after the other, from the empty
  plan that entering the planning mode leaves.
\<close>

definition planInvariant :: "('id, 'pos) PlannedSwaps \<Rightarrow> bool" where
  "planInvariant m =
    (distinct (map fst m) \<and> distinct (map (\<lambda>kv. targetFieldPlayerId (snd kv)) m))"

fun stagePlans ::
  "('id \<times> 'id \<times> 'pos option) list \<Rightarrow> ('id, 'pos) PlannedSwaps \<Rightarrow> ('id, 'pos) PlannedSwaps" where
  "stagePlans [] m = m"
| "stagePlans ((dragged, target, pos) # drops) m =
     stagePlans drops (handlePlanDrop dragged target pos m)"

text \<open>The plans that target a field player.\<close>

definition plansTargeting :: "'id \<Rightarrow> ('id, 'pos) PlannedSwaps \<Rightarrow> ('id, 'pos) PlannedSwaps" where
  "plansTargeting x m = filter (\<lambda>kv. targetFieldPlayerId (snd kv) = x) m"

section \<open>Reading persisted games\<close>

text \<open>
  The value \<open>JSON.parse\<close> returns, its numbers integers as everywhere. An object is its
  list of properties, a later duplicate key winning; \<open>getProp v k\<close> is \<open>v.k\<close>, \<open>None\<close> for
  \<open>undefined\<close>.
\<close>

datatype json =
    JNull | JBool bool | JNum int | JStr string | JArr "json list" | JObj "(string \<times> json) list"

definition getProp :: "json \<Rightarrow> string \<Rightarrow> json option" where
  "getProp v k = (case v of JObj kvs \<Rightarrow> map_of (rev kvs) k | _ \<Rightarrow> None)"

definition isObject :: "json \<Rightarrow> bool" where
  "isObject v = (case v of JObj kvs \<Rightarrow> True | JArr vs \<Rightarrow> True | _ \<Rightarrow> False)"

definition truthyJ :: "json option \<Rightarrow> bool" where
  "truthyJ v =
    (case v of
       None \<Rightarrow> False
     | Some JNull \<Rightarrow> False
     | Some (JBool b) \<Rightarrow> b
     | Some (JNum n) \<Rightarrow> n \<noteq> 0
     | Some (JStr s) \<Rightarrow> s \<noteq> []
     | Some (JArr vs) \<Rightarrow> True
     | Some (JObj kvs) \<Rightarrow> True)"

definition numberOr :: "int \<Rightarrow> json option \<Rightarrow> int" where
  "numberOr d v = (case v of Some (JNum n) \<Rightarrow> n | _ \<Rightarrow> d)"

definition numberOrNull :: "json option \<Rightarrow> int option" where
  "numberOrNull v = (case v of Some (JNum n) \<Rightarrow> Some n | _ \<Rightarrow> None)"

definition booleanOrFalse :: "json option \<Rightarrow> bool" where
  "booleanOrFalse v = (case v of Some (JBool b) \<Rightarrow> b | _ \<Rightarrow> False)"

definition stringOr :: "string \<Rightarrow> json option \<Rightarrow> string" where
  "stringOr d v = (case v of Some (JStr s) \<Rightarrow> s | _ \<Rightarrow> d)"

definition loadedLocation :: "json option \<Rightarrow> Location" where
  "loadedLocation v =
    (case v of
       Some (JStr s) \<Rightarrow>
         if s = ''field'' then OnField
         else if s = ''bench'' then Bench
         else if s = ''inactive'' then Inactive
         else Bench
     | _ \<Rightarrow> Bench)"

text \<open>
  One lineup entry of a persisted game: skipped (\<open>None\<close>) unless it is an object with a
  truthy \<open>id\<close>; the location defaults to the bench, the position is kept as it is.
\<close>

definition loadedPlayer :: "json \<Rightarrow> (json, json) PlayerLineupState option" where
  "loadedPlayer p =
    (if \<not> isObject p \<or> \<not> truthyJ (getProp p ''id'') then None
     else (case getProp p ''id'' of
             None \<Rightarrow> None
           | Some i \<Rightarrow>
               Some \<lparr> playerId = i,
                      location = loadedLocation (getProp p ''location''),
                      position = getProp p ''position'',
                      playtimeSeconds = numberOr 0 (getProp p ''playtimeSeconds''),
                      playtimerStartTime = numberOrNull (getProp p ''playtimerStartTime''),
                      isStarter = Some (booleanOrFalse (getProp p ''isStarter'')),
                      subbedOnCount = numberOr 0 (getProp p ''subbedOnCount''),
                      subbedOffCount = numberOr 0 (getProp p ''subbedOffCount'') \<rparr>))"

definition validLineup :: "json option \<Rightarrow> (json, json) PlayerLineupState list option" where
  "validLineup l =
    (case l of Some (JArr ps) \<Rightarrow> Some (List.map_filter loadedPlayer ps) | _ \<Rightarrow> None)"

definition loadedGame :: "string \<Rightarrow> json \<Rightarrow> (json, json) Game option" where
  "loadedGame currentDate g =
    (if \<not> isObject g \<or> \<not> truthyJ (getProp g ''id'') then None
     else (case getProp g ''id'' of
             None \<Rightarrow> None
           | Some i \<Rightarrow>
               Some \<lparr> gameId = i,
                      opponent = stringOr ''Unknown Opponent'' (getProp g ''opponent''),
                      date = stringOr currentDate (getProp g ''date''),
                      time = stringOr [] (getProp g ''time''),
                      gameLocation = (if getProp g ''location'' = Some (JStr ''away'') then Away else Home),
                      homeScore = Some (numberOr 0 (getProp g ''homeScore'')),
                      awayScore = Some (numberOr 0 (getProp g ''awayScore'')),
                      timerStatus =
                        Some (if getProp g ''timerStatus'' = Some (JStr ''running'') then Running else Stopped),
                      timerStartTime = numberOrNull (getProp g ''timerStartTime''),
                      timerElapsedSeconds = Some (numberOr 0 (getProp g ''timerElapsedSeconds'')),
                      isExplicitlyFinished = Some (booleanOrFalse (getProp g ''isExplicitlyFinished'')),
                      lineup = validLineup (getProp g ''lineup'') \<rparr>))"

text \<open>
  \<open>loadFromLocalStorage('games', defaultValue)\<close> on the value parsed from the stored text
  (the context passes \<open>[]\<close> as the default). An array is validated entry by entry and the
  invalid entries are dropped; \<open>null\<close> gives the default (\<open>parsedValue ?? defaultValue\<close>);
  any other value is returned unvalidated by the source and has no typed reading: \<open>None\<close>.
  A missing or empty stored text, and a text that does not parse, give the default before
  this point.
\<close>

definition loadGames ::
  "string \<Rightarrow> (json, json) Game list \<Rightarrow> json \<Rightarrow> (json, json) Game list option" where
  "loadGames currentDate defaultValue parsedValue =
    (case parsedValue of
       JArr gs \<Rightarrow> Some (List.map_filter (loadedGame currentDate) gs)
     | JNull \<Rightarrow> Some defaultValue
     | _ \<Rightarrow> None)"

text \<open>
  The states along a sequence of calls, and two properties of a state: a running clock
  has a truthy start time; the timer of a player runs only while the player is on the
  field and the clock of the game runs.
\<close>

fun statesAlong ::
  "'id \<Rightarrow> ('id, 'pos) Game list \<Rightarrow> ('id, 'pos) Call list \<Rightarrow> ('id, 'pos) Game list list" where
  "statesAlong gid games [] = [games]"
| "statesAlong gid games (c # cs) = games # statesAlong gid (applyCall gid c games) cs"

definition clockStarted :: "('id, 'pos) Game list \<Rightarrow> 'id \<Rightarrow> bool" where
  "clockStarted games gid =
    (case findGame games gid of
       None \<Rightarrow> True
     | Some g \<Rightarrow> timerStatus g = Some Running \<longrightarrow> truthy (timerStartTime g))"

definition timerOnlyOnField :: "('id, 'pos) Game list \<Rightarrow> 'id \<Rightarrow> 'id \<Rightarrow> bool" where
  "timerOnlyOnField games gid p =
    (case findPlayer games gid p of
       None \<Rightarrow> True
     | Some e \<Rightarrow> truthy (playtimerStartTime e) \<longrightarrow> location e = OnField \<and> gameRunning games gid)"

section \<open>Sample data\<close>

text \<open>
  Concrete players and games, with string ids and coordinates in percent, for the examples;
  \<open>tickClock start\<close> is a clock whose \<open>k\<close>-th reading is \<open>start + k\<close> milliseconds.
\<close>

definition tickClock :: "int \<Rightarrow> nat \<Rightarrow> int" where
  "tickClock start k = start + int k"

definition samplePlayer ::
  "string \<Rightarrow> Location \<Rightarrow> (rat \<times> rat) option \<Rightarrow> int option \<Rightarrow>
   (string, rat \<times> rat) PlayerLineupState" where
  "samplePlayer pid loc pos start =
    \<lparr> playerId = pid, location = loc, position = pos, playtimeSeconds = 0,
      playtimerStartTime = start, isStarter = Some False,
      subbedOnCount = 0, subbedOffCount = 0 \<rparr>"

definition sampleGame ::
  "TimerStatus \<Rightarrow> int option \<Rightarrow> int \<Rightarrow> bool \<Rightarrow>
   (string, rat \<times> rat) PlayerLineupState list \<Rightarrow> (string, rat \<times> rat) Game" where
  "sampleGame status start elapsed finished players =
    \<lparr> gameId = ''g1'', opponent = ''Rivals'', date = ''2025-03-01'', time = ''10:00'',
      gameLocation = Home, homeScore = Some 0, awayScore = Some 0,
      timerStatus = Some status, timerStartTime = start,
      timerElapsedSeconds = Some elapsed, isExplicitlyFinished = Some finished,
      lineup = Some players \<rparr>"

definition subsGame :: "(string, rat \<times> rat) Game list" where
  "subsGame = [sampleGame Stopped None 0 False
     [samplePlayer ''p1'' Bench None None, samplePlayer ''p2'' OnField (Some (50, 50)) None]]"

definition subsCalls :: "(string, rat \<times> rat) Call list" where
  "subsCalls =
    [MoveCall 10 ''p1'' Bench OnField (Some (10, 10)),
     MoveCall 20 ''p1'' OnField Bench None,
     MoveCall 30 ''p1'' Bench Inactive None,
     MoveCall 40 ''p1'' Inactive OnField (Some (20, 20)),
     MoveCall 50 ''p1'' OnField OnField (Some (30, 30)),
     MoveCall 60 ''p2'' OnField Bench None,
     MoveCall 70 ''p1'' OnField Bench None,
     MoveCall 80 ''p1'' Bench OnField (Some (40, 40))]"

definition runningGame :: "(string, rat \<times> rat) Game" where
  "runningGame = sampleGame Running (Some 1000) 0 False
     [samplePlayer ''p1'' OnField (Some (50, 50)) (Some 1000), samplePlayer ''p2'' Bench None None]"

definition clockGame :: "(string, rat \<times> rat) Game list" where
  "clockGame = [runningGame]"

definition clockCalls :: "(string, rat \<times> rat) Call list" where
  "clockCalls =
    [MoveCall 31000 ''p1'' OnField Bench None,
     MoveCall 32000 ''p1'' Bench OnField (Some (10, 10)),
     StopCall 61400,
     StartCall 70000 ''2025-03-01'' ''10:01'',
     MoveCall 70400 ''p1'' OnField OnField (Some (20, 20)),
     FinishCall 80000]"

definition finishedGames :: "(string, rat \<times> rat) Game list" where
  "finishedGames = [sampleGame Stopped None 90 True
     [samplePlayer ''p1'' OnField (Some (50, 50)) None, samplePlayer ''p2'' Bench None None]]"

definition kickoffGame :: "(string, rat \<times> rat) Game list" where
  "kickoffGame = [sampleGame Stopped None 0 False
     [samplePlayer ''p1'' OnField (Some (50, 50)) None, samplePlayer ''p2'' Bench None None]]"


definition falseStart :: "(string, rat \<times> rat) Call list" where
  "falseStart =
    [StartCall 1000 ''2025-03-01'' ''10:00'',
     StopCall 1300,
     MoveCall 2000 ''p1'' OnField Bench None,
     MoveCall 3000 ''p2'' Bench OnField (Some (50, 50))]"

definition pausedGame :: "(string, rat \<times> rat) Game" where
  "pausedGame = sampleGame Stopped None 30 False
     [(samplePlayer ''p1'' Bench None None) \<lparr> isStarter := Some True \<rparr>,
      samplePlayer ''p2'' OnField (Some (50, 50)) None]"

definition benchItem :: "(string, rat \<times> rat) DragItem" where
  "benchItem = \<lparr> itemId = ''p2'', itemLocation = Bench, itemPosition = None \<rparr>"



definition samplePlan :: "(string, rat \<times> rat) PlannedSwaps" where
  "samplePlan = [(''p5'', \<lparr> targetFieldPlayerId = ''p4'', targetPosition = Some (20, 20) \<rparr>)]"

definition sampleDrops :: "(string \<times> string \<times> (rat \<times> rat) option) list" where
  "sampleDrops =
    [(''p5'', ''p4'', Some (20, 20)), (''p1'', ''p2'', Some (50, 50)),
     (''p3'', ''p2'', Some (50, 50)), (''p3'', ''p4'', Some (20, 20))]"

definition swapGame :: "(string, rat \<times> rat) Game list" where
  "swapGame = [sampleGame Running (Some 1000) 0 False
     [samplePlayer ''p1'' Bench None None, samplePlayer ''p2'' Bench None None,
      samplePlayer ''p3'' OnField (Some (30, 30)) (Some 1000),
      samplePlayer ''p4'' OnField (Some (70, 70)) (Some 1000),
      samplePlayer ''p5'' OnField (Some (50, 90)) (Some 1000)]]"

definition swapPlan :: "(string, rat \<times> rat) PlanningState" where
  "swapPlan =
    \<lparr> isPlanningSubs = True,
      plannedSwaps =
        [(''p1'', \<lparr> targetFieldPlayerId = ''p3'', targetPosition = Some (30, 30) \<rparr>),
         (''p2'', \<lparr> targetFieldPlayerId = ''p4'', targetPosition = Some (70, 70) \<rparr>)] \<rparr>"

section \<open>Facts about the helpers\<close>

lemma Math_round_of_int_add: "Math_round (of_int p + x) = p + Math_round x"
  by (simp add: Math_round_def add.assoc)

lemma Math_round_millis: "Math_round (of_int d / 1000) = (d + 500) div 1000"
proof -
  have "(of_int d / 1000 + 1 / 2 :: rat) = of_int (d + 500) / of_int 1000"
    by (simp add: field_simps)
  then show ?thesis
    unfolding Math_round_def by (simp only: floor_divide_of_int_eq)
qed

lemma banked_eq: "banked s now start = s + (now - start + 500) div 1000"
  unfolding banked_def Math_round_of_int_add Math_round_millis by (rule refl)

lemma banked_mono: "start \<le> now \<Longrightarrow> s \<le> banked s now start"
  by (simp add: banked_eq)

lemma findIndex_Some:
  "findIndex P xs = Some i \<Longrightarrow> i < length xs \<and> P (xs ! i) \<and> find P xs = Some (xs ! i)"
  by (induction xs arbitrary: i) (auto split: if_splits)

lemma findIndex_None: "findIndex P xs = None \<longleftrightarrow> find P xs = None"
  by (induction xs) auto

lemma find_update_same:
  "findIndex P xs = Some i \<Longrightarrow> P y \<Longrightarrow> find P (xs[i := y]) = Some y"
  by (induction xs arbitrary: i) (auto split: if_splits)

lemma find_update_other:
  "findIndex P xs = Some i \<Longrightarrow> \<not> Q (xs ! i) \<Longrightarrow> \<not> Q y \<Longrightarrow> find Q (xs[i := y]) = find Q xs"
  by (induction xs arbitrary: i) (auto split: if_splits)

lemma find_map_preserving:
  "(\<And>x. P (f x) = P x) \<Longrightarrow> find P (map f xs) = map_option f (find P xs)"
  by (induction xs) auto

section \<open>Reading the games after a move\<close>

lemma findGame_move_other:
  assumes "gid' \<noteq> gid"
  shows "findGame (movePlayerInGame now gid pid src tgt pos games) gid' = findGame games gid'"
proof (cases "findIndex (\<lambda>g. gameId g = gid) games")
  case None
  then show ?thesis by (simp add: movePlayerInGame_def)
next
  case (Some i)
  have P: "gameId (games ! i) = gid" using findIndex_Some[OF Some] by simp
  have *: "find (\<lambda>g. gameId g = gid') (games[i := (games ! i)\<lparr>lineup := l\<rparr>]) =
      find (\<lambda>g. gameId g = gid') games" for l
    using Some P assms by (intro find_update_other[where P="\<lambda>g. gameId g = gid"]) auto
  show ?thesis
    using Some by (simp add: movePlayerInGame_def findGame_def Let_def * split: option.splits)
qed

lemma findGame_move_same:
  "findGame (movePlayerInGame now gid pid src tgt pos games) gid =
     (case findGame games gid of None \<Rightarrow> None
      | Some g \<Rightarrow> (case lineup g of None \<Rightarrow> Some g
          | Some l \<Rightarrow> (case findIndex (\<lambda>p. playerId p = pid) l of None \<Rightarrow> Some g
              | Some i \<Rightarrow> Some (g\<lparr>lineup := Some (l[i :=
                  movedPlayerState now (timerStatus g = Some Running) src tgt pos (l ! i)])\<rparr>))))"
proof (cases "findIndex (\<lambda>g. gameId g = gid) games")
  case None
  moreover from None have "find (\<lambda>g. gameId g = gid) games = None" by (simp add: findIndex_None)
  ultimately show ?thesis by (simp add: movePlayerInGame_def findGame_def)
next
  case (Some i)
  have F: "find (\<lambda>g. gameId g = gid) games = Some (games ! i)" using findIndex_Some[OF Some] by simp
  have P: "gameId (games ! i) = gid" using findIndex_Some[OF Some] by simp
  have *: "find (\<lambda>g. gameId g = gid) (games[i := (games ! i)\<lparr>lineup := l\<rparr>]) =
      Some ((games ! i)\<lparr>lineup := l\<rparr>)" for l
    using Some P by (intro find_update_same) auto
  show ?thesis
    using Some by (simp add: movePlayerInGame_def findGame_def Let_def F * split: option.splits)
qed

lemma playerId_moved: "playerId (movedPlayerState now r src tgt pos e) = playerId e"
  by (simp add: movedPlayerState_def Let_def)

lemma findPlayer_move:
  "findPlayer (movePlayerInGame now gid pid src tgt pos games) gid' q =
     (if gid' = gid \<and> q = pid
      then map_option (movedPlayerState now (gameRunning games gid) src tgt pos)
             (findPlayer games gid pid)
      else findPlayer games gid' q)"
proof (cases "gid' = gid")
  case False
  then show ?thesis by (simp add: findPlayer_def findGame_move_other)
next
  case True
  have same: "find (\<lambda>p. playerId p = pid) (l[i := movedPlayerState now r src tgt pos (l ! i)]) =
      map_option (movedPlayerState now r src tgt pos) (find (\<lambda>p. playerId p = pid) l)"
    if "findIndex (\<lambda>p. playerId p = pid) l = Some i"
    for l :: "('a, 'b) PlayerLineupState list" and i r
    using that findIndex_Some[OF that]
    by (simp add: find_update_same playerId_moved)
  have other: "find (\<lambda>p. playerId p = q) (l[i := movedPlayerState now r src tgt pos (l ! i)]) =
      find (\<lambda>p. playerId p = q) l"
    if "findIndex (\<lambda>p. playerId p = pid) l = Some i" "q \<noteq> pid"
    for l :: "('a, 'b) PlayerLineupState list" and i r
    using that findIndex_Some[OF that(1)]
    by (intro find_update_other[where P="\<lambda>p. playerId p = pid"]) (auto simp: playerId_moved)
  show ?thesis
    using True
    by (auto simp: findPlayer_def findGame_move_same gameRunning_def findIndex_None same other
        split: option.splits)
qed

lemma gameRunning_move:
  "gameRunning (movePlayerInGame now gid pid src tgt pos games) gid' = gameRunning games gid'"
  by (cases "gid' = gid")
    (auto simp: gameRunning_def findGame_move_same findGame_move_other split: option.splits)

section \<open>The sample data, field by field\<close>

lemma samplePlayer_sel:
  "playerId (samplePlayer pid loc pos start) = pid"
  "location (samplePlayer pid loc pos start) = loc"
  "position (samplePlayer pid loc pos start) = pos"
  "playtimeSeconds (samplePlayer pid loc pos start) = 0"
  "playtimerStartTime (samplePlayer pid loc pos start) = start"
  "isStarter (samplePlayer pid loc pos start) = Some False"
  "subbedOnCount (samplePlayer pid loc pos start) = 0"
  "subbedOffCount (samplePlayer pid loc pos start) = 0"
  by (simp_all add: samplePlayer_def)

lemma sampleGame_sel:
  "gameId (sampleGame status start elapsed finished players) = ''g1''"
  "timerStatus (sampleGame status start elapsed finished players) = Some status"
  "timerStartTime (sampleGame status start elapsed finished players) = start"
  "timerElapsedSeconds (sampleGame status start elapsed finished players) = Some elapsed"
  "isExplicitlyFinished (sampleGame status start elapsed finished players) = Some finished"
  "lineup (sampleGame status start elapsed finished players) = Some players"
  by (simp_all add: sampleGame_def)

section \<open>Reading the games after a clock call, and along a sequence of calls\<close>


lemma findGame_map:
  "(\<And>g. gameId (f g) = gameId g) \<Longrightarrow> findGame (map f games) gid = map_option f (findGame games gid)"
  unfolding findGame_def by (induction games) auto

lemma gameId_started: "gameId (startedGame now cd ct g) = gameId g"
  by (simp add: startedGame_def Let_def)

lemma gameId_stopped: "gameId (stoppedGame now g) = gameId g"
  by (simp add: stoppedGame_def Let_def)

lemma gameId_finished: "gameId (finishedGame now g) = gameId g"
  by (simp add: finishedGame_def Let_def)

lemma findGame_start:
  "findGame (startGameTimer now cd ct gid games) gid' =
     map_option (\<lambda>g. if gameId g = gid \<and> \<not> orFalse (isExplicitlyFinished g)
                       then startedGame now cd ct g else g) (findGame games gid')"
  unfolding startGameTimer_def by (rule findGame_map) (simp add: gameId_started)

lemma findGame_stop:
  "findGame (stopGameTimer now gid games) gid' =
     map_option (\<lambda>g. if gameId g = gid \<and> timerStatus g = Some Running \<and> truthy (timerStartTime g)
                       then stoppedGame now g else g) (findGame games gid')"
  unfolding stopGameTimer_def by (rule findGame_map) (simp add: gameId_stopped)

lemma findGame_finish:
  "findGame (markGameAsFinished now gid games) gid' =
     map_option (\<lambda>g. if gameId g = gid then finishedGame now g else g) (findGame games gid')"
  unfolding markGameAsFinished_def by (rule findGame_map) (simp add: gameId_finished)

lemma findGame_gameId: "findGame games gid = Some g \<Longrightarrow> gameId g = gid"
  unfolding findGame_def by (induction games) (auto split: if_splits)

lemma playerId_started: "playerId (startedPlayer now f p) = playerId p"
  by (simp add: startedPlayer_def Let_def)

lemma playerId_stopped: "playerId (stoppedPlayer now p) = playerId p"
  by (simp add: stoppedPlayer_def)

lemma playerId_finished: "playerId (finishedPlayer now p) = playerId p"
  by (simp add: finishedPlayer_def)

lemma find_player_map:
  "(\<And>p. playerId (f p) = playerId p) \<Longrightarrow>
   find (\<lambda>p. playerId p = q) (map f l) = map_option f (find (\<lambda>p. playerId p = q) l)"
  by (induction l) auto

text \<open>The effect of each clock call on the entry of a player of the game.\<close>

lemma findPlayer_start:
  assumes "findGame games gid = Some g"
  shows "findPlayer (startGameTimer now cd ct gid games) gid q =
     (if orFalse (isExplicitlyFinished g) then findPlayer games gid q
      else map_option (startedPlayer now (orZero (timerElapsedSeconds g) = 0)) (findPlayer games gid q))"
  using assms findGame_gameId[OF assms]
  by (auto simp: findPlayer_def findGame_start startedGame_def Let_def find_player_map playerId_started
      split: option.splits)

lemma findPlayer_stop:
  assumes "findGame games gid = Some g"
  shows "findPlayer (stopGameTimer now gid games) gid q =
     (if timerStatus g = Some Running \<and> truthy (timerStartTime g)
      then map_option (stoppedPlayer now) (findPlayer games gid q)
      else findPlayer games gid q)"
  using assms findGame_gameId[OF assms]
  by (auto simp: findPlayer_def findGame_stop stoppedGame_def Let_def find_player_map playerId_stopped
      split: option.splits)

lemma findPlayer_finish:
  assumes "findGame games gid = Some g"
  shows "findPlayer (markGameAsFinished now gid games) gid q =
     (if timerStatus g = Some Running \<and> truthy (timerStartTime g)
      then map_option (finishedPlayer now) (findPlayer games gid q)
      else findPlayer games gid q)"
  using assms findGame_gameId[OF assms]
  by (auto simp: findPlayer_def findGame_finish finishedGame_def Let_def find_player_map playerId_finished
      split: option.splits)

lemma findPlayer_findGame: "findPlayer games gid q = Some e \<Longrightarrow> \<exists>g. findGame games gid = Some g"
  by (auto simp: findPlayer_def split: option.splits)


lemma playerTrace_head:
  "\<exists>rest. playerTrace gid p games cs = findPlayer games gid p # rest"
  by (cases cs) simp_all

lemma counters_step:
  assumes e: "findPlayer games gid p = Some e" and t: "truthfulCall gid games c"
  shows "\<exists>e'. findPlayer (applyCall gid c games) gid p = Some e'
      \<and> subbedOnCount e' = subbedOnCount e + (if location e = Bench \<and> location e' = OnField then 1 else 0)
      \<and> subbedOffCount e' = subbedOffCount e + (if location e = OnField \<and> location e' = Bench then 1 else 0)"
proof -
  obtain g where g: "findGame games gid = Some g" using findPlayer_findGame[OF e] by blast
  show ?thesis
  proof (cases c)
    case (MoveCall now pid src tgt pos)
    then show ?thesis using e t
      by (cases "pid = p") (auto simp: findPlayer_move movedPlayerState_def Let_def)
  next
    case (StartCall now cd ct)
    then show ?thesis using e
      by (simp add: findPlayer_start[OF g] startedPlayer_def Let_def)
  next
    case (StopCall now)
    then show ?thesis using e
      by (auto simp: findPlayer_stop[OF g] stoppedPlayer_def)
  next
    case (FinishCall now)
    then show ?thesis using e
      by (auto simp: findPlayer_finish[OF g] finishedPlayer_def)
  qed
qed

lemma counters_run:
  assumes "findPlayer games gid p = Some e" and "truthful gid games calls"
  shows "\<exists>e'. findPlayer (runCalls gid games calls) gid p = Some e'
      \<and> subbedOnCount e' = subbedOnCount e
           + int (transitions Bench OnField (map (map_option location) (playerTrace gid p games calls)))
      \<and> subbedOffCount e' = subbedOffCount e
           + int (transitions OnField Bench (map (map_option location) (playerTrace gid p games calls)))"
  using assms
proof (induction calls arbitrary: games e)
  case Nil
  then show ?case by simp
next
  case (Cons c cs)
  from Cons.prems have tc: "truthfulCall gid games c" and tr: "truthful gid (applyCall gid c games) cs"
    by simp_all
  from counters_step[OF Cons.prems(1) tc] obtain e1 where
    e1: "findPlayer (applyCall gid c games) gid p = Some e1"
    and on1: "subbedOnCount e1 = subbedOnCount e + (if location e = Bench \<and> location e1 = OnField then 1 else 0)"
    and off1: "subbedOffCount e1 = subbedOffCount e + (if location e = OnField \<and> location e1 = Bench then 1 else 0)"
    by blast
  from Cons.IH[OF e1 tr] obtain e' where
    e': "findPlayer (runCalls gid (applyCall gid c games) cs) gid p = Some e'"
    and on': "subbedOnCount e' = subbedOnCount e1
           + int (transitions Bench OnField (map (map_option location) (playerTrace gid p (applyCall gid c games) cs)))"
    and off': "subbedOffCount e' = subbedOffCount e1
           + int (transitions OnField Bench (map (map_option location) (playerTrace gid p (applyCall gid c games) cs)))"
    by blast
  obtain rest where rest: "playerTrace gid p (applyCall gid c games) cs = Some e1 # rest"
    using playerTrace_head[of gid p "applyCall gid c games" cs] e1 by auto
  show ?case
    using e' on' off' on1 off1 Cons.prems(1) by (simp add: rest)
qed

lemma playtime_step:
  assumes e: "findPlayer games gid p = Some e"
    and t: "\<forall>t. playtimerStartTime e = Some t \<longrightarrow> t \<le> callTime c"
  shows "\<exists>e'. findPlayer (applyCall gid c games) gid p = Some e'
      \<and> playtimeSeconds e \<le> playtimeSeconds e'
      \<and> (\<forall>t. playtimerStartTime e' = Some t \<longrightarrow> t = callTime c \<or> playtimerStartTime e = Some t)"
proof -
  obtain g where g: "findGame games gid = Some g" using findPlayer_findGame[OF e] by blast
  have bank: "playtimeSeconds e \<le> banked (playtimeSeconds e) (callTime c) (orZero (playtimerStartTime e))"
    if "truthy (playtimerStartTime e)"
    using that t by (intro banked_mono) (auto simp: truthy_def orZero_def split: option.splits)
  show ?thesis
  proof (cases c)
    case (MoveCall now pid src tgt pos)
    then show ?thesis using e bank
      by (cases "pid = p") (auto simp: findPlayer_move movedPlayerState_def Let_def)
  next
    case (StartCall now cd ct)
    then show ?thesis using e
      by (simp add: findPlayer_start[OF g] startedPlayer_def Let_def)
  next
    case (StopCall now)
    then show ?thesis using e bank
      by (auto simp: findPlayer_stop[OF g] stoppedPlayer_def)
  next
    case (FinishCall now)
    then show ?thesis using e bank
      by (auto simp: findPlayer_finish[OF g] finishedPlayer_def)
  qed
qed

lemma playtime_run:
  assumes "findPlayer games gid p = Some e"
    and "sorted (map callTime calls)"
    and "\<forall>t. playtimerStartTime e = Some t \<longrightarrow> (\<forall>c \<in> set calls. t \<le> callTime c)"
  shows "\<exists>ps. map (map_option playtimeSeconds) (playerTrace gid p games calls) = map Some ps
      \<and> sorted ps \<and> hd ps = playtimeSeconds e"
  using assms
proof (induction calls arbitrary: games e)
  case Nil
  then show ?case by (intro exI[of _ "[playtimeSeconds e]"]) simp
next
  case (Cons c cs)
  have t: "\<forall>t. playtimerStartTime e = Some t \<longrightarrow> t \<le> callTime c" using Cons.prems(3) by simp
  from playtime_step[OF Cons.prems(1) t] obtain e1 where
    e1: "findPlayer (applyCall gid c games) gid p = Some e1"
    and le: "playtimeSeconds e \<le> playtimeSeconds e1"
    and st: "\<forall>t. playtimerStartTime e1 = Some t \<longrightarrow> t = callTime c \<or> playtimerStartTime e = Some t"
    by blast
  have s: "sorted (map callTime cs)" and lo: "\<forall>d \<in> set cs. callTime c \<le> callTime d"
    using Cons.prems(2) by simp_all
  have t1: "\<forall>t. playtimerStartTime e1 = Some t \<longrightarrow> (\<forall>d \<in> set cs. t \<le> callTime d)"
    using st lo Cons.prems(3) by auto
  from Cons.IH[OF e1 s t1] obtain ps where
    ps: "map (map_option playtimeSeconds) (playerTrace gid p (applyCall gid c games) cs) = map Some ps"
    and sps: "sorted ps" and hps: "hd ps = playtimeSeconds e1"
    by blast
  have ne: "ps \<noteq> []" using ps playerTrace_head[of gid p "applyCall gid c games" cs] by auto
  have "sorted (playtimeSeconds e # ps)"
    using sps hps le ne by (cases ps) auto
  then show ?case
    using ps Cons.prems(1) by (intro exI[of _ "playtimeSeconds e # ps"]) simp
qed


lemma subsGame_find:
  "findPlayer subsGame ''g1'' ''p1'' = Some (samplePlayer ''p1'' Bench None None)"
  "findPlayer subsGame ''g1'' ''p2'' = Some (samplePlayer ''p2'' OnField (Some (50, 50)) None)"
  "gameRunning subsGame ''g1'' = False"
  by (simp_all add: subsGame_def findPlayer_def findGame_def gameRunning_def samplePlayer_sel sampleGame_sel)

lemma subs_truthful: "truthful ''g1'' subsGame subsCalls"
  by (simp add: subsCalls_def findPlayer_move gameRunning_move subsGame_find movedPlayerState_def Let_def samplePlayer_sel)

lemma subs_trace: "map (map_option location) (playerTrace ''g1'' ''p1'' subsGame subsCalls) = 
   [Some Bench, Some OnField, Some Bench, Some Inactive, Some OnField, Some OnField, Some OnField, Some Bench, Some OnField]"
  by (simp add: subsCalls_def findPlayer_move gameRunning_move subsGame_find movedPlayerState_def Let_def samplePlayer_sel)

lemma clockGame_find:
  "findPlayer clockGame ''g1'' ''p1'' = Some (samplePlayer ''p1'' OnField (Some (50, 50)) (Some 1000))"
  "findPlayer clockGame ''g1'' ''p2'' = Some (samplePlayer ''p2'' Bench None None)"
  "gameRunning clockGame ''g1'' = True"
  "findGame clockGame ''g1'' = Some runningGame"
  by (simp_all add: clockGame_def runningGame_def findPlayer_def findGame_def gameRunning_def
      samplePlayer_sel sampleGame_sel)

lemma clock_trace:
  "map (map_option playtimeSeconds) (playerTrace ''g1'' ''p1'' clockGame clockCalls)
     = map Some [0, 30, 30, 59, 59, 59, 69]"
  by code_simp

lemma clock_sorted: "sorted (map callTime clockCalls)"
  by (simp add: clockCalls_def)

lemma finishedGames_find:
  "findGame finishedGames ''g1'' = Some (sampleGame Stopped None 90 True
     [samplePlayer ''p1'' OnField (Some (50, 50)) None, samplePlayer ''p2'' Bench None None])"
  by (simp add: finishedGames_def findGame_def sampleGame_sel)

lemma kickoffGame_find:
  "findGame kickoffGame ''g1'' = Some (sampleGame Stopped None 0 False
     [samplePlayer ''p1'' OnField (Some (50, 50)) None, samplePlayer ''p2'' Bench None None])"
  "findPlayer kickoffGame ''g1'' ''p1'' = Some (samplePlayer ''p1'' OnField (Some (50, 50)) None)"
  "findPlayer kickoffGame ''g1'' ''p2'' = Some (samplePlayer ''p2'' Bench None None)"
  by (simp_all add: kickoffGame_def findGame_def findPlayer_def sampleGame_sel samplePlayer_sel)

lemma pausedGame_find:
  "findGame [pausedGame] ''g1'' = Some pausedGame"
  "findPlayer [pausedGame] ''g1'' ''p1'' = Some ((samplePlayer ''p1'' Bench None None) \<lparr> isStarter := Some True \<rparr>)"
  "findPlayer [pausedGame] ''g1'' ''p2'' = Some (samplePlayer ''p2'' OnField (Some (50, 50)) None)"
  by (simp_all add: pausedGame_def findGame_def findPlayer_def sampleGame_sel samplePlayer_sel)

section \<open>Moves that change nothing; the stored sample record\<close>

lemma findPlayer_entry:
  assumes "findPlayer games gid pid = Some e"
  shows "\<exists>g l i j. findIndex (\<lambda>g. gameId g = gid) games = Some i \<and> games ! i = g \<and> i < length games
      \<and> lineup g = Some l \<and> findIndex (\<lambda>p. playerId p = pid) l = Some j \<and> l ! j = e \<and> j < length l"
proof -
  from assms obtain g l where g: "find (\<lambda>g. gameId g = gid) games = Some g"
    and l: "lineup g = Some l" and e: "find (\<lambda>p. playerId p = pid) l = Some e"
    by (auto simp: findPlayer_def findGame_def split: option.splits)
  from g obtain i where i: "findIndex (\<lambda>g. gameId g = gid) games = Some i"
    using findIndex_None[of "\<lambda>g. gameId g = gid" games] by (cases "findIndex (\<lambda>g. gameId g = gid) games") auto
  from e obtain j where j: "findIndex (\<lambda>p. playerId p = pid) l = Some j"
    using findIndex_None[of "\<lambda>p. playerId p = pid" l] by (cases "findIndex (\<lambda>p. playerId p = pid) l") auto
  from findIndex_Some[OF i] g have "games ! i = g" "i < length games" by simp_all
  moreover from findIndex_Some[OF j] e have "l ! j = e" "j < length l" by simp_all
  ultimately show ?thesis using i j l by blast
qed

lemma move_unchanged:
  assumes "findPlayer games gid pid = Some e"
    and "movedPlayerState now (gameRunning games gid) src tgt pos e = e"
  shows "movePlayerInGame now gid pid src tgt pos games = games"
proof -
  from findPlayer_entry[OF assms(1)] obtain g l i j where
    i: "findIndex (\<lambda>g. gameId g = gid) games = Some i" and g: "games ! i = g"
    and l: "lineup g = Some l" and j: "findIndex (\<lambda>p. playerId p = pid) l = Some j" and e: "l ! j = e"
    by blast
  have r: "gameRunning games gid = (timerStatus g = Some Running)"
    using findIndex_Some[OF i] g by (simp add: gameRunning_def findGame_def)
  have "movePlayerInGame now gid pid src tgt pos games =
      games[i := g\<lparr>lineup := Some (l[j := e])\<rparr>]"
    using i g l j e assms(2) r by (simp add: movePlayerInGame_def Let_def)
  also have "l[j := e] = l" using e list_update_id[of l j] by simp
  also have "g\<lparr>lineup := Some l\<rparr> = g" using l by (cases g) simp
  also have "games[i := g] = games" using g list_update_id[of games i] by simp
  finally show ?thesis .
qed



section \<open>The staged plan\<close>

lemma find_append:
  "find P (xs @ ys) = (case find P xs of None \<Rightarrow> find P ys | Some x \<Rightarrow> Some x)"
  by (induction xs) auto

lemma find_filter_None:
  "(\<And>x. Q x \<Longrightarrow> \<not> P x) \<Longrightarrow> find P (filter Q xs) = None"
  by (auto simp: find_None_iff)

lemma Map_set_absent: "k \<notin> set (map fst m) \<Longrightarrow> Map_set k v m = m @ [(k, v)]"
  by (simp add: Map_set_def)

lemma Map_delete_absent: "k \<notin> set (map fst (Map_delete k m))"
  by (auto simp: Map_delete_def)

lemma delete_first_target:
  assumes "planInvariant m"
  shows "(case find (\<lambda>kv. targetFieldPlayerId (snd kv) = t) m of
            None \<Rightarrow> m | Some kv \<Rightarrow> Map_delete (fst kv) m)
         = filter (\<lambda>kv. targetFieldPlayerId (snd kv) \<noteq> t) m"
proof (cases "find (\<lambda>kv. targetFieldPlayerId (snd kv) = t) m")
  case None
  then have "\<not> (\<exists>kv. kv \<in> set m \<and> targetFieldPlayerId (snd kv) = t)"
    unfolding find_None_iff by blast
  then have "filter (\<lambda>kv. targetFieldPlayerId (snd kv) \<noteq> t) m = m"
    by (intro filter_True) blast
  then show ?thesis using None by simp
next
  case (Some kv)
  then have kv: "kv \<in> set m" "targetFieldPlayerId (snd kv) = t"
    by (auto simp: find_Some_iff)
  from assms have ik: "inj_on fst (set m)"
    and it: "inj_on (\<lambda>kv. targetFieldPlayerId (snd kv)) (set m)"
    by (simp_all add: planInvariant_def distinct_map)
  have "(fst kv' \<noteq> fst kv) = (targetFieldPlayerId (snd kv') \<noteq> t)" if "kv' \<in> set m" for kv'
    using that kv ik it by (auto dest: inj_onD)
  then have "filter (\<lambda>kv'. fst kv' \<noteq> fst kv) m = filter (\<lambda>kv. targetFieldPlayerId (snd kv) \<noteq> t) m"
    by (intro filter_cong) auto
  then show ?thesis using Some by (simp add: Map_delete_def)
qed

lemma handlePlanDrop_eq:
  assumes "planInvariant m"
  shows "handlePlanDrop d t pos m =
     filter (\<lambda>kv. fst kv \<noteq> d \<and> targetFieldPlayerId (snd kv) \<noteq> t) m
       @ [(d, \<lparr> targetFieldPlayerId = t, targetPosition = pos \<rparr>)]"
proof -
  have "handlePlanDrop d t pos m =
      Map_set d \<lparr> targetFieldPlayerId = t, targetPosition = pos \<rparr>
        (Map_delete d (filter (\<lambda>kv. targetFieldPlayerId (snd kv) \<noteq> t) m))"
    unfolding handlePlanDrop_def Let_def delete_first_target[OF assms] ..
  also have "\<dots> = Map_delete d (filter (\<lambda>kv. targetFieldPlayerId (snd kv) \<noteq> t) m)
       @ [(d, \<lparr> targetFieldPlayerId = t, targetPosition = pos \<rparr>)]"
    by (rule Map_set_absent) (rule Map_delete_absent)
  also have "Map_delete d (filter (\<lambda>kv. targetFieldPlayerId (snd kv) \<noteq> t) m) =
      filter (\<lambda>kv. fst kv \<noteq> d \<and> targetFieldPlayerId (snd kv) \<noteq> t) m"
    by (simp add: Map_delete_def conj_commute)
  finally show ?thesis .
qed

lemma handlePlanDrop_invariant:
  assumes "planInvariant m"
  shows "planInvariant (handlePlanDrop d t pos m)"
  using assms unfolding handlePlanDrop_eq[OF assms] planInvariant_def
  by (auto simp: distinct_map_filter)

lemma stagePlans_invariant: "planInvariant m \<Longrightarrow> planInvariant (stagePlans drops m)"
  by (induction drops arbitrary: m) (auto simp: handlePlanDrop_invariant)

lemma samplePlan_invariant: "planInvariant samplePlan"
  by (simp add: planInvariant_def samplePlan_def)

lemma swapGame_find:
  "findPlayer swapGame ''g1'' ''p1'' = Some (samplePlayer ''p1'' Bench None None)"
  "findPlayer swapGame ''g1'' ''p2'' = Some (samplePlayer ''p2'' Bench None None)"
  "findPlayer swapGame ''g1'' ''p3'' = Some (samplePlayer ''p3'' OnField (Some (30, 30)) (Some 1000))"
  "findPlayer swapGame ''g1'' ''p4'' = Some (samplePlayer ''p4'' OnField (Some (70, 70)) (Some 1000))"
  "findPlayer swapGame ''g1'' ''p5'' = Some (samplePlayer ''p5'' OnField (Some (50, 90)) (Some 1000))"
  by (simp_all add: swapGame_def findPlayer_def findGame_def samplePlayer_sel sampleGame_sel)

section \<open>A timer runs only on the field while the clock runs\<close>

lemma truthy_None: "truthy None = False"
  by (simp add: truthy_def)

lemma stoppedPlayer_timer:
  "truthy (playtimerStartTime (stoppedPlayer now e)) \<Longrightarrow>
     location e = Bench \<and> truthy (playtimerStartTime e)"
  by (cases "location e") (auto simp: stoppedPlayer_def truthy_None split: if_splits)

lemma finishedPlayer_timer:
  "truthy (playtimerStartTime (finishedPlayer now e)) \<Longrightarrow>
     location e = Bench \<and> truthy (playtimerStartTime e)"
  by (cases "location e") (auto simp: finishedPlayer_def truthy_None split: if_splits)

lemma findPlayer_None_findGame:
  "findGame games gid = None \<Longrightarrow> findPlayer games gid p = None"
  by (simp add: findPlayer_def)

lemma timer_step_move:
  assumes t: "truthfulCall gid games (MoveCall now pid src tgt pos)" and nz: "now \<noteq> 0"
    and inv: "timerOnlyOnField games gid p"
  shows "timerOnlyOnField (movePlayerInGame now gid pid src tgt pos games) gid p"
proof (cases "findPlayer games gid p")
  case None
  then show ?thesis by (auto simp: timerOnlyOnField_def findPlayer_move)
next
  case (Some e)
  show ?thesis
  proof (cases "pid = p")
    case False
    then show ?thesis using inv
      by (auto simp: timerOnlyOnField_def findPlayer_move gameRunning_move split: option.splits)
  next
    case True
    with t Some have src: "src = location e" by simp
    show ?thesis using inv Some True src nz
      by (auto simp: timerOnlyOnField_def findPlayer_move gameRunning_move movedPlayerState_def
          Let_def truthy_def split: if_splits)
  qed
qed

lemma clockStarted_move:
  "clockStarted games gid \<Longrightarrow> clockStarted (movePlayerInGame now gid pid src tgt pos games) gid"
  by (auto simp: clockStarted_def findGame_move_same split: option.splits)

lemma gameRunning_start:
  "findGame games gid = Some g \<Longrightarrow>
   gameRunning (startGameTimer now cd ct gid games) gid =
     (if orFalse (isExplicitlyFinished g) then timerStatus g = Some Running else True)"
  by (auto simp: gameRunning_def findGame_start startedGame_def Let_def dest: findGame_gameId)

lemma gameRunning_stop:
  "findGame games gid = Some g \<Longrightarrow>
   gameRunning (stopGameTimer now gid games) gid =
     (timerStatus g = Some Running \<and> \<not> truthy (timerStartTime g))"
  by (auto simp: gameRunning_def findGame_stop stoppedGame_def Let_def dest: findGame_gameId)

lemma gameRunning_finish:
  "findGame games gid = Some g \<Longrightarrow> gameRunning (markGameAsFinished now gid games) gid = False"
  by (auto simp: gameRunning_def findGame_finish finishedGame_def Let_def dest: findGame_gameId)

lemma clockStarted_call:
  assumes "callTime c \<noteq> 0" and "clockStarted games gid"
  shows "clockStarted (applyCall gid c games) gid"
proof (cases c)
  case (MoveCall now pid src tgt pos)
  then show ?thesis using assms by (simp add: clockStarted_move)
next
  case (StartCall now cd ct)
  then show ?thesis using assms
    by (auto simp: clockStarted_def findGame_start startedGame_def Let_def truthy_def
        split: option.splits)
next
  case (StopCall now)
  then show ?thesis using assms
    by (auto simp: clockStarted_def findGame_stop stoppedGame_def Let_def split: option.splits)
next
  case (FinishCall now)
  then show ?thesis using assms
    by (auto simp: clockStarted_def findGame_finish finishedGame_def Let_def split: option.splits)
qed

lemma findPlayer_None_call:
  assumes "findPlayer games gid p = None"
  shows "findPlayer (applyCall gid c games) gid p = None"
proof (cases "findGame games gid")
  case None
  then have "findGame (applyCall gid c games) gid = None"
    by (cases c) (simp_all add: findGame_move_same findGame_start findGame_stop findGame_finish)
  then show ?thesis by (rule findPlayer_None_findGame)
next
  case (Some g)
  then show ?thesis using assms
    by (cases c)
      (auto simp: findPlayer_move findPlayer_start[OF Some] findPlayer_stop[OF Some]
         findPlayer_finish[OF Some])
qed

lemma timer_step:
  assumes t: "truthfulCall gid games c" and nz: "callTime c \<noteq> 0"
    and cs: "clockStarted games gid" and inv: "timerOnlyOnField games gid p"
  shows "timerOnlyOnField (applyCall gid c games) gid p"
proof (cases "findPlayer games gid p")
  case None
  then show ?thesis by (simp add: timerOnlyOnField_def findPlayer_None_call)
next
  case (Some e)
  from findPlayer_findGame[OF Some] obtain g where g: "findGame games gid = Some g" by blast
  from cs g have st: "timerStatus g = Some Running \<longrightarrow> truthy (timerStartTime g)"
    by (simp add: clockStarted_def)
  from inv Some g have i: "truthy (playtimerStartTime e) \<longrightarrow> location e = OnField \<and> timerStatus g = Some Running"
    by (simp add: timerOnlyOnField_def gameRunning_def)
  show ?thesis
  proof (cases c)
    case (MoveCall now pid src tgt pos)
    then show ?thesis using t nz inv by (simp add: timer_step_move)
  next
    case (StartCall now cd ct)
    show ?thesis
    proof (cases "orFalse (isExplicitlyFinished g)")
      case True
      then show ?thesis using StartCall Some i
        by (simp add: timerOnlyOnField_def findPlayer_start[OF g] gameRunning_start[OF g])
    next
      case False
      then show ?thesis using StartCall Some i
        by (cases "location e = OnField")
          (simp_all add: timerOnlyOnField_def findPlayer_start[OF g] gameRunning_start[OF g]
             startedPlayer_def Let_def)
    qed
  next
    case (StopCall now)
    show ?thesis
    proof (cases "timerStatus g = Some Running \<and> truthy (timerStartTime g)")
      case True
      have "\<not> truthy (playtimerStartTime (stoppedPlayer now e))"
        using stoppedPlayer_timer[of now e] i by auto
      then show ?thesis using StopCall Some True
        by (simp add: timerOnlyOnField_def findPlayer_stop[OF g])
    next
      case False
      then show ?thesis using StopCall Some i st
        by (auto simp: timerOnlyOnField_def findPlayer_stop[OF g] gameRunning_stop[OF g])
    qed
  next
    case (FinishCall now)
    show ?thesis
    proof (cases "timerStatus g = Some Running \<and> truthy (timerStartTime g)")
      case True
      have "\<not> truthy (playtimerStartTime (finishedPlayer now e))"
        using finishedPlayer_timer[of now e] i by auto
      then show ?thesis using FinishCall Some True
        by (simp add: timerOnlyOnField_def findPlayer_finish[OF g])
    next
      case False
      then show ?thesis using FinishCall Some i st
        by (auto simp: timerOnlyOnField_def findPlayer_finish[OF g] gameRunning_finish[OF g])
    qed
  qed
qed

lemma timer_run:
  assumes "truthful gid games calls" and "list_all (\<lambda>c. callTime c \<noteq> 0) calls"
    and "clockStarted games gid" and "timerOnlyOnField games gid p"
  shows "list_all (\<lambda>s. timerOnlyOnField s gid p) (statesAlong gid games calls)"
  using assms
proof (induction calls arbitrary: games)
  case Nil
  then show ?case by simp
next
  case (Cons c cs)
  from Cons.prems have t: "truthfulCall gid games c" and nz: "callTime c \<noteq> 0" by simp_all
  have "list_all (\<lambda>s. timerOnlyOnField s gid p) (statesAlong gid (applyCall gid c games) cs)"
    using Cons.prems
    by (intro Cons.IH) (simp_all add: clockStarted_call[OF nz] timer_step[OF t nz])
  then show ?case using Cons.prems(4) by simp
qed

section \<open>The clock button and the timers of the players\<close>










section \<open>The claims\<close>

subsection \<open>C1: a position only on the field\<close>




subsection \<open>C2: the substitution counters count the transitions\<close>

text \<open>
  C2. Along every sequence of calls (moves of any player with truthful source locations,
  clock starts, stops and the end of the game in between), the \<open>subbedOnCount\<close> of an
  entry has grown by the number of bench-to-field transitions in the history of its stored
  location, and its \<open>subbedOffCount\<close> by the number of field-to-bench transitions; both
  counters are \<open>0\<close> in the default lineup, so from there they equal these numbers. A single move
  whose source or target is \<open>'inactive'\<close>, or whose source equals its target, changes
  neither counter.
\<close>

theorem counters_count_transitions:
  fixes games :: "('id, 'pos) Game list"
  assumes "findPlayer games gid p = Some e" and "truthful gid games calls"
  shows "(\<exists>e'. findPlayer (runCalls gid games calls) gid p = Some e'
      \<and> subbedOnCount e' = subbedOnCount e
           + int (transitions Bench OnField (map (map_option location) (playerTrace gid p games calls)))
      \<and> subbedOffCount e' = subbedOffCount e
           + int (transitions OnField Bench (map (map_option location) (playerTrace gid p games calls))))
    \<and> (\<forall>now src tgt pos. src = Inactive \<or> tgt = Inactive \<or> src = tgt \<longrightarrow>
          (\<exists>e'. findPlayer (movePlayerInGame now gid p src tgt pos games) gid p = Some e'
             \<and> subbedOnCount e' = subbedOnCount e \<and> subbedOffCount e' = subbedOffCount e))
    \<and> list_all (\<lambda>d. subbedOnCount d = 0 \<and> subbedOffCount d = 0)
          (createDefaultLineup players :: ('id, 'pos) PlayerLineupState list)"
proof -
  have "\<exists>e'. findPlayer (movePlayerInGame now gid p src tgt pos games) gid p = Some e'
             \<and> subbedOnCount e' = subbedOnCount e \<and> subbedOffCount e' = subbedOffCount e"
    if "src = Inactive \<or> tgt = Inactive \<or> src = tgt" for now src tgt pos
    using that assms(1) by (auto simp: findPlayer_move movedPlayerState_def Let_def)
  moreover have "list_all (\<lambda>d. subbedOnCount d = 0 \<and> subbedOffCount d = 0)
      (createDefaultLineup players :: ('id, 'pos) PlayerLineupState list)"
    by (simp add: createDefaultLineup_def list_all_iff)
  ultimately show ?thesis using counters_run[OF assms] by blast
qed

text \<open>
  Player \<open>p1\<close> goes bench, field, bench, inactive, field, field (repositioned), bench,
  field, with a move of \<open>p2\<close> in between: two substitutions on, two off.
\<close>

theorem counters_count_transitions_witness:
  "findPlayer subsGame ''g1'' ''p1'' = Some (samplePlayer ''p1'' Bench None None)
   \<and> truthful ''g1'' subsGame subsCalls
   \<and> (\<exists>e'. findPlayer (runCalls ''g1'' subsGame subsCalls) ''g1'' ''p1'' = Some e'
          \<and> subbedOnCount e' = 2 \<and> subbedOffCount e' = 2)
   \<and> (\<exists>e'. findPlayer (movePlayerInGame 90 ''g1'' ''p1'' Bench Inactive None subsGame) ''g1'' ''p1'' = Some e'
          \<and> subbedOnCount e' = 0 \<and> subbedOffCount e' = 0)
   \<and> list_all (\<lambda>d. subbedOnCount d = 0 \<and> subbedOffCount d = 0)
        (createDefaultLineup [''p1'', ''p2''] :: (string, rat \<times> rat) PlayerLineupState list)"
  using counters_count_transitions[OF subsGame_find(1) subs_truthful,
      where players = "[''p1'', ''p2'']"]
  by (simp add: subsGame_find subs_truthful subs_trace samplePlayer_sel)

subsection \<open>C3: starting a clock that runs, or a finished game\<close>

text \<open>
  C3, as claimed: for every game that is running or finished, \<open>startGameTimer\<close> leaves
  \<open>timerStartTime\<close>, \<open>timerElapsedSeconds\<close> and the lineup unchanged. The guard of
  \<open>startGameTimer\<close> tests \<open>isExplicitlyFinished\<close> only: on the running, unfinished sample
  game (started at 1000 ms) a start at 61000 ms moves \<open>timerStartTime\<close> to 61000 and changes
  the lineup.
\<close>

theorem start_while_running_counterexample:
  "findGame clockGame ''g1'' = Some runningGame
   \<and> timerStatus runningGame = Some Running
   \<and> timerStartTime runningGame = Some 1000
   \<and> map_option timerStartTime
        (findGame (startGameTimer 61000 ''2025-03-01'' ''10:00'' ''g1'' clockGame) ''g1'')
       = Some (Some 61000)
   \<and> map_option lineup
        (findGame (startGameTimer 61000 ''2025-03-01'' ''10:00'' ''g1'' clockGame) ''g1'')
       \<noteq> Some (lineup runningGame)"
  by (simp add: clockGame_find findGame_start runningGame_def sampleGame_sel orFalse_def
      startedGame_def startedPlayer_def samplePlayer_def Let_def)

text \<open>
  C3, amended. \<open>startGameTimer\<close> is a no-op on a finished game (the game is returned as it
  is), and it never changes \<open>timerElapsedSeconds\<close>, finished or not, running or not.
  A start while the clock runs is rejected one level up: the clock button
  (\<open>handleTimerClick\<close>) does nothing on a finished game, and on a running game it calls
  \<open>stopGameTimer\<close>, never \<open>startGameTimer\<close>.
\<close>

theorem start_noop_only_when_finished:
  assumes "findGame games gid = Some g"
  shows "(isExplicitlyFinished g = Some True \<longrightarrow>
            findGame (startGameTimer now cd ct gid games) gid = Some g
            \<and> handleTimerClick now cd ct shouldStart gid games = games)
       \<and> (\<exists>g'. findGame (startGameTimer now cd ct gid games) gid = Some g'
              \<and> timerElapsedSeconds g' = timerElapsedSeconds g)
       \<and> (timerStatus g = Some Running \<and> isExplicitlyFinished g \<noteq> Some True \<longrightarrow>
            handleTimerClick now cd ct shouldStart gid games = stopGameTimer now gid games)"
  using assms
  by (auto simp: findGame_start handleTimerClick_def startedGame_def Let_def orFalse_def
      split: option.splits)

text \<open>A finished game with 90 seconds played, and the running sample game.\<close>

theorem start_noop_only_when_finished_witness:
  "findGame finishedGames ''g1'' = Some (sampleGame Stopped None 90 True
     [samplePlayer ''p1'' OnField (Some (50, 50)) None, samplePlayer ''p2'' Bench None None])
   \<and> findGame (startGameTimer 100000 ''2025-03-02'' ''11:00'' ''g1'' finishedGames) ''g1''
       = findGame finishedGames ''g1''
   \<and> handleTimerClick 100000 ''2025-03-02'' ''11:00'' True ''g1'' finishedGames = finishedGames
   \<and> findGame clockGame ''g1'' = Some runningGame
   \<and> timerStatus runningGame = Some Running
   \<and> handleTimerClick 61000 ''2025-03-01'' ''10:01'' True ''g1'' clockGame
       = stopGameTimer 61000 ''g1'' clockGame"
  using start_noop_only_when_finished[OF finishedGames_find, of 100000 "''2025-03-02''" "''11:00''" True]
    start_noop_only_when_finished[OF clockGame_find(4), of 61000 "''2025-03-01''" "''10:01''" True]
  by (simp add: finishedGames_find clockGame_find sampleGame_sel runningGame_def)

subsection \<open>C4: a clock start and the timers already set\<close>




subsection \<open>C5: committing and cancelling a staged plan\<close>

text \<open>
  C5. The game holds the bench players \<open>A\<close> and \<open>B\<close> and the field players \<open>X\<close> and \<open>Y\<close>,
  and the plan stages \<open>A\<close> for \<open>X\<close> and \<open>B\<close> for \<open>Y\<close>, each with the position of its field
  player. Committing runs, pair by pair, the move of the field player to the bench and then
  the move of the bench player to the field at the staged position. Afterwards \<open>A\<close> and \<open>B\<close>
  are on the field at the positions \<open>X\<close> and \<open>Y\<close> had, \<open>X\<close> and \<open>Y\<close> are on the bench
  without a position, \<open>subbedOnCount\<close> has grown by one for \<open>A\<close> and for \<open>B\<close> and
  \<open>subbedOffCount\<close> by one for \<open>X\<close> and for \<open>Y\<close> (two and two over the four entries), every
  other entry is as it was, the planning mode is left and the plan is empty. Cancelling
  leaves the planning mode and empties the plan, and the games are untouched.
\<close>

theorem commit_two_swaps:
  assumes a: "findPlayer games gid A = Some a" and b: "findPlayer games gid B = Some b"
    and x: "findPlayer games gid X = Some x" and y: "findPlayer games gid Y = Some y"
    and la: "location a = Bench" and lb: "location b = Bench"
    and lx: "location x = OnField" and ly: "location y = OnField"
    and ab: "A \<noteq> B" and xy: "X \<noteq> Y"
    and plan: "plannedSwaps ui =
      [(A, \<lparr> targetFieldPlayerId = X, targetPosition = position x \<rparr>),
       (B, \<lparr> targetFieldPlayerId = Y, targetPosition = position y \<rparr>)]"
  shows "fst (handleConfirmPlan clock gid (games, ui)) =
           movePlayerInGame (clock 3) gid B Bench OnField (position y)
             (movePlayerInGame (clock 2) gid Y OnField Bench None
               (movePlayerInGame (clock 1) gid A Bench OnField (position x)
                 (movePlayerInGame (clock 0) gid X OnField Bench None games)))
       \<and> (\<exists>a' b' x' y'.
             findPlayer (fst (handleConfirmPlan clock gid (games, ui))) gid A = Some a'
           \<and> findPlayer (fst (handleConfirmPlan clock gid (games, ui))) gid B = Some b'
           \<and> findPlayer (fst (handleConfirmPlan clock gid (games, ui))) gid X = Some x'
           \<and> findPlayer (fst (handleConfirmPlan clock gid (games, ui))) gid Y = Some y'
           \<and> location a' = OnField \<and> position a' = position x
           \<and> location b' = OnField \<and> position b' = position y
           \<and> location x' = Bench \<and> position x' = None
           \<and> location y' = Bench \<and> position y' = None
           \<and> subbedOnCount a' = subbedOnCount a + 1 \<and> subbedOffCount a' = subbedOffCount a
           \<and> subbedOnCount b' = subbedOnCount b + 1 \<and> subbedOffCount b' = subbedOffCount b
           \<and> subbedOnCount x' = subbedOnCount x \<and> subbedOffCount x' = subbedOffCount x + 1
           \<and> subbedOnCount y' = subbedOnCount y \<and> subbedOffCount y' = subbedOffCount y + 1
           \<and> subbedOnCount a' + subbedOnCount b' + subbedOnCount x' + subbedOnCount y'
               = subbedOnCount a + subbedOnCount b + subbedOnCount x + subbedOnCount y + 2
           \<and> subbedOffCount a' + subbedOffCount b' + subbedOffCount x' + subbedOffCount y'
               = subbedOffCount a + subbedOffCount b + subbedOffCount x + subbedOffCount y + 2)
       \<and> (\<forall>q. q \<noteq> A \<and> q \<noteq> B \<and> q \<noteq> X \<and> q \<noteq> Y \<longrightarrow>
             findPlayer (fst (handleConfirmPlan clock gid (games, ui))) gid q = findPlayer games gid q)
       \<and> isPlanningSubs (snd (handleConfirmPlan clock gid (games, ui))) = False
       \<and> plannedSwaps (snd (handleConfirmPlan clock gid (games, ui))) = []
       \<and> fst (handleCancelPlan (games, ui)) = games
       \<and> isPlanningSubs (snd (handleCancelPlan (games, ui))) = False
       \<and> plannedSwaps (snd (handleCancelPlan (games, ui))) = []"
proof -
  obtain g where g: "findGame games gid = Some g" using findPlayer_findGame[OF a] by blast
  have gid: "gameId g = gid" by (rule findGame_gameId[OF g])
  have ne: "A \<noteq> X" "A \<noteq> Y" "B \<noteq> X" "B \<noteq> Y"
    using a b x y la lb lx ly by auto
  have run: "fst (handleConfirmPlan clock gid (games, ui)) =
           movePlayerInGame (clock 3) gid B Bench OnField (position y)
             (movePlayerInGame (clock 2) gid Y OnField Bench None
               (movePlayerInGame (clock 1) gid A Bench OnField (position x)
                 (movePlayerInGame (clock 0) gid X OnField Bench None games)))"
    by (simp add: handleConfirmPlan_def g gid plan numeral_3_eq_3 numeral_2_eq_2)
  have ui: "isPlanningSubs (snd (handleConfirmPlan clock gid (games, ui))) = False
       \<and> plannedSwaps (snd (handleConfirmPlan clock gid (games, ui))) = []"
    by (simp add: handleConfirmPlan_def g)
  have cancel: "fst (handleCancelPlan (games, ui)) = games
       \<and> isPlanningSubs (snd (handleCancelPlan (games, ui))) = False
       \<and> plannedSwaps (snd (handleCancelPlan (games, ui))) = []"
    by (simp add: handleCancelPlan_def)
  have others: "\<forall>q. q \<noteq> A \<and> q \<noteq> B \<and> q \<noteq> X \<and> q \<noteq> Y \<longrightarrow>
             findPlayer (fst (handleConfirmPlan clock gid (games, ui))) gid q = findPlayer games gid q"
    unfolding run by (simp add: findPlayer_move)
  have four: "\<exists>a' b' x' y'.
             findPlayer (fst (handleConfirmPlan clock gid (games, ui))) gid A = Some a'
           \<and> findPlayer (fst (handleConfirmPlan clock gid (games, ui))) gid B = Some b'
           \<and> findPlayer (fst (handleConfirmPlan clock gid (games, ui))) gid X = Some x'
           \<and> findPlayer (fst (handleConfirmPlan clock gid (games, ui))) gid Y = Some y'
           \<and> location a' = OnField \<and> position a' = position x
           \<and> location b' = OnField \<and> position b' = position y
           \<and> location x' = Bench \<and> position x' = None
           \<and> location y' = Bench \<and> position y' = None
           \<and> subbedOnCount a' = subbedOnCount a + 1 \<and> subbedOffCount a' = subbedOffCount a
           \<and> subbedOnCount b' = subbedOnCount b + 1 \<and> subbedOffCount b' = subbedOffCount b
           \<and> subbedOnCount x' = subbedOnCount x \<and> subbedOffCount x' = subbedOffCount x + 1
           \<and> subbedOnCount y' = subbedOnCount y \<and> subbedOffCount y' = subbedOffCount y + 1
           \<and> subbedOnCount a' + subbedOnCount b' + subbedOnCount x' + subbedOnCount y'
               = subbedOnCount a + subbedOnCount b + subbedOnCount x + subbedOnCount y + 2
           \<and> subbedOffCount a' + subbedOffCount b' + subbedOffCount x' + subbedOffCount y'
               = subbedOffCount a + subbedOffCount b + subbedOffCount x + subbedOffCount y + 2"
    unfolding run using ne ab xy a b x y
    by (simp add: findPlayer_move gameRunning_move movedPlayerState_def Let_def)
  from run four others ui cancel show ?thesis by blast
qed

text \<open>
  Five players, the clock running: \<open>p1\<close> for \<open>p3\<close> at (30, 30) and \<open>p2\<close> for \<open>p4\<close> at
  (70, 70); \<open>p5\<close> stays where it is.
\<close>

theorem commit_two_swaps_witness:
  "findPlayer swapGame ''g1'' ''p1'' = Some (samplePlayer ''p1'' Bench None None)
   \<and> findPlayer swapGame ''g1'' ''p2'' = Some (samplePlayer ''p2'' Bench None None)
   \<and> findPlayer swapGame ''g1'' ''p3'' = Some (samplePlayer ''p3'' OnField (Some (30, 30)) (Some 1000))
   \<and> findPlayer swapGame ''g1'' ''p4'' = Some (samplePlayer ''p4'' OnField (Some (70, 70)) (Some 1000))
   \<and> (\<exists>a' b' x' y'.
         findPlayer (fst (handleConfirmPlan (tickClock 61000) ''g1'' (swapGame, swapPlan))) ''g1'' ''p1'' = Some a'
       \<and> findPlayer (fst (handleConfirmPlan (tickClock 61000) ''g1'' (swapGame, swapPlan))) ''g1'' ''p2'' = Some b'
       \<and> findPlayer (fst (handleConfirmPlan (tickClock 61000) ''g1'' (swapGame, swapPlan))) ''g1'' ''p3'' = Some x'
       \<and> findPlayer (fst (handleConfirmPlan (tickClock 61000) ''g1'' (swapGame, swapPlan))) ''g1'' ''p4'' = Some y'
       \<and> location a' = OnField \<and> position a' = Some (30, 30)
       \<and> location b' = OnField \<and> position b' = Some (70, 70)
       \<and> location x' = Bench \<and> position x' = None
       \<and> location y' = Bench \<and> position y' = None
       \<and> subbedOnCount a' = 1 \<and> subbedOffCount a' = 0
       \<and> subbedOnCount b' = 1 \<and> subbedOffCount b' = 0
       \<and> subbedOnCount x' = 0 \<and> subbedOffCount x' = 1
       \<and> subbedOnCount y' = 0 \<and> subbedOffCount y' = 1
       \<and> subbedOnCount a' + subbedOnCount b' + subbedOnCount x' + subbedOnCount y' = 2
       \<and> subbedOffCount a' + subbedOffCount b' + subbedOffCount x' + subbedOffCount y' = 2)
   \<and> findPlayer (fst (handleConfirmPlan (tickClock 61000) ''g1'' (swapGame, swapPlan))) ''g1'' ''p5''
       = Some (samplePlayer ''p5'' OnField (Some (50, 90)) (Some 1000))
   \<and> snd (handleConfirmPlan (tickClock 61000) ''g1'' (swapGame, swapPlan))
       = \<lparr> isPlanningSubs = False, plannedSwaps = [] \<rparr>
   \<and> handleCancelPlan (swapGame, swapPlan) = (swapGame, \<lparr> isPlanningSubs = False, plannedSwaps = [] \<rparr>)"
proof -
  have loc: "location (samplePlayer ''p1'' Bench None None) = Bench"
    "location (samplePlayer ''p2'' Bench None None) = Bench"
    "location (samplePlayer ''p3'' OnField (Some (30, 30)) (Some 1000)) = OnField"
    "location (samplePlayer ''p4'' OnField (Some (70, 70)) (Some 1000)) = OnField"
    by (simp_all add: samplePlayer_sel)
  have ne: "''p1'' \<noteq> ''p2''" "''p3'' \<noteq> ''p4''" by simp_all
  have plan: "plannedSwaps swapPlan =
      [(''p1'', \<lparr> targetFieldPlayerId = ''p3'',
                 targetPosition = position (samplePlayer ''p3'' OnField (Some (30, 30)) (Some 1000)) \<rparr>),
       (''p2'', \<lparr> targetFieldPlayerId = ''p4'',
                 targetPosition = position (samplePlayer ''p4'' OnField (Some (70, 70)) (Some 1000)) \<rparr>)]"
    by (simp add: swapPlan_def samplePlayer_sel)
  note inst = commit_two_swaps[OF swapGame_find(1) swapGame_find(2) swapGame_find(3) swapGame_find(4)
      loc ne plan, of "tickClock 61000"]
  have ui: "snd (handleConfirmPlan (tickClock 61000) ''g1'' (swapGame, swapPlan))
       = \<lparr> isPlanningSubs = False, plannedSwaps = [] \<rparr>"
    by (simp add: handleConfirmPlan_def swapGame_def findGame_def sampleGame_sel swapPlan_def)
  have cancel: "handleCancelPlan (swapGame, swapPlan)
       = (swapGame, \<lparr> isPlanningSubs = False, plannedSwaps = [] \<rparr>)"
    by (simp add: handleCancelPlan_def swapPlan_def)
  have p5: "findPlayer (fst (handleConfirmPlan (tickClock 61000) ''g1'' (swapGame, swapPlan))) ''g1'' ''p5''
       = Some (samplePlayer ''p5'' OnField (Some (50, 90)) (Some 1000))"
  proof -
    from inst have "\<forall>q. q \<noteq> ''p1'' \<and> q \<noteq> ''p2'' \<and> q \<noteq> ''p3'' \<and> q \<noteq> ''p4'' \<longrightarrow>
        findPlayer (fst (handleConfirmPlan (tickClock 61000) ''g1'' (swapGame, swapPlan))) ''g1'' q
          = findPlayer swapGame ''g1'' q"
      by (elim conjE)
    then show ?thesis by (simp add: swapGame_find)
  qed
  from inst have four0: "\<exists>a' b' x' y'.
         findPlayer (fst (handleConfirmPlan (tickClock 61000) ''g1'' (swapGame, swapPlan))) ''g1'' ''p1'' = Some a'
       \<and> findPlayer (fst (handleConfirmPlan (tickClock 61000) ''g1'' (swapGame, swapPlan))) ''g1'' ''p2'' = Some b'
       \<and> findPlayer (fst (handleConfirmPlan (tickClock 61000) ''g1'' (swapGame, swapPlan))) ''g1'' ''p3'' = Some x'
       \<and> findPlayer (fst (handleConfirmPlan (tickClock 61000) ''g1'' (swapGame, swapPlan))) ''g1'' ''p4'' = Some y'
       \<and> location a' = OnField \<and> position a' = position (samplePlayer ''p3'' OnField (Some (30, 30)) (Some 1000))
       \<and> location b' = OnField \<and> position b' = position (samplePlayer ''p4'' OnField (Some (70, 70)) (Some 1000))
       \<and> location x' = Bench \<and> position x' = None
       \<and> location y' = Bench \<and> position y' = None
       \<and> subbedOnCount a' = subbedOnCount (samplePlayer ''p1'' Bench None None) + 1
       \<and> subbedOffCount a' = subbedOffCount (samplePlayer ''p1'' Bench None None)
       \<and> subbedOnCount b' = subbedOnCount (samplePlayer ''p2'' Bench None None) + 1
       \<and> subbedOffCount b' = subbedOffCount (samplePlayer ''p2'' Bench None None)
       \<and> subbedOnCount x' = subbedOnCount (samplePlayer ''p3'' OnField (Some (30, 30)) (Some 1000))
       \<and> subbedOffCount x' = subbedOffCount (samplePlayer ''p3'' OnField (Some (30, 30)) (Some 1000)) + 1
       \<and> subbedOnCount y' = subbedOnCount (samplePlayer ''p4'' OnField (Some (70, 70)) (Some 1000))
       \<and> subbedOffCount y' = subbedOffCount (samplePlayer ''p4'' OnField (Some (70, 70)) (Some 1000)) + 1
       \<and> subbedOnCount a' + subbedOnCount b' + subbedOnCount x' + subbedOnCount y'
           = subbedOnCount (samplePlayer ''p1'' Bench None None) + subbedOnCount (samplePlayer ''p2'' Bench None None)
             + subbedOnCount (samplePlayer ''p3'' OnField (Some (30, 30)) (Some 1000))
             + subbedOnCount (samplePlayer ''p4'' OnField (Some (70, 70)) (Some 1000)) + 2
       \<and> subbedOffCount a' + subbedOffCount b' + subbedOffCount x' + subbedOffCount y'
           = subbedOffCount (samplePlayer ''p1'' Bench None None) + subbedOffCount (samplePlayer ''p2'' Bench None None)
             + subbedOffCount (samplePlayer ''p3'' OnField (Some (30, 30)) (Some 1000))
             + subbedOffCount (samplePlayer ''p4'' OnField (Some (70, 70)) (Some 1000)) + 2"
    by (elim conjE)
  have four: "\<exists>a' b' x' y'.
         findPlayer (fst (handleConfirmPlan (tickClock 61000) ''g1'' (swapGame, swapPlan))) ''g1'' ''p1'' = Some a'
       \<and> findPlayer (fst (handleConfirmPlan (tickClock 61000) ''g1'' (swapGame, swapPlan))) ''g1'' ''p2'' = Some b'
       \<and> findPlayer (fst (handleConfirmPlan (tickClock 61000) ''g1'' (swapGame, swapPlan))) ''g1'' ''p3'' = Some x'
       \<and> findPlayer (fst (handleConfirmPlan (tickClock 61000) ''g1'' (swapGame, swapPlan))) ''g1'' ''p4'' = Some y'
       \<and> location a' = OnField \<and> position a' = Some (30, 30)
       \<and> location b' = OnField \<and> position b' = Some (70, 70)
       \<and> location x' = Bench \<and> position x' = None
       \<and> location y' = Bench \<and> position y' = None
       \<and> subbedOnCount a' = 1 \<and> subbedOffCount a' = 0
       \<and> subbedOnCount b' = 1 \<and> subbedOffCount b' = 0
       \<and> subbedOnCount x' = 0 \<and> subbedOffCount x' = 1
       \<and> subbedOnCount y' = 0 \<and> subbedOffCount y' = 1
       \<and> subbedOnCount a' + subbedOnCount b' + subbedOnCount x' + subbedOnCount y' = 2
       \<and> subbedOffCount a' + subbedOffCount b' + subbedOffCount x' + subbedOffCount y' = 2"
    using four0 unfolding samplePlayer_sel by simp
  show ?thesis
    using swapGame_find(1-4) four p5 ui cancel by (intro conjI) assumption+
qed

subsection \<open>C6: the staged plan has one plan per bench player and per field player\<close>

text \<open>
  C6. Every plan staged from the empty plan by any sequence of drops has no bench player
  twice as a key and no field player twice as a target, and a drop keeps this invariant;
  so do the other handlers that write the plan, which empty it or leave it (the toggle of
  the planning mode, cancel, commit).
  On a plan with the invariant: staging \<open>A\<close> for \<open>X\<close> and then \<open>B\<close> for \<open>X\<close>, with \<open>A\<close> and
  \<open>B\<close> different, leaves no plan of \<open>A\<close>, and the plan of \<open>B\<close> is the only one that targets
  \<open>X\<close>; staging \<open>A\<close> for \<open>X\<close> and then \<open>A\<close> for \<open>Y\<close> leaves \<open>A\<close> with the one plan for \<open>Y\<close>.
\<close>

theorem staged_plan_invariant:
  "planInvariant (stagePlans drops [])
   \<and> (planInvariant m \<longrightarrow> planInvariant (handlePlanDrop d t pos m))
   \<and> (planInvariant (plannedSwaps ui) \<longrightarrow>
        planInvariant (plannedSwaps (handleTogglePlanningMode finished ui))
        \<and> planInvariant (plannedSwaps (snd (handleCancelPlan (games, ui))))
        \<and> planInvariant (plannedSwaps (snd (handleConfirmPlan clock gid (games, ui)))))
   \<and> (planInvariant m \<and> A \<noteq> B \<longrightarrow>
        Map_get (handlePlanDrop B X q (handlePlanDrop A X p m)) A = None
        \<and> Map_get (handlePlanDrop B X q (handlePlanDrop A X p m)) B
            = Some \<lparr> targetFieldPlayerId = X, targetPosition = q \<rparr>
        \<and> plansTargeting X (handlePlanDrop B X q (handlePlanDrop A X p m))
            = [(B, \<lparr> targetFieldPlayerId = X, targetPosition = q \<rparr>)])
   \<and> (planInvariant m \<longrightarrow>
        Map_get (handlePlanDrop A Y q (handlePlanDrop A X p m)) A
            = Some \<lparr> targetFieldPlayerId = Y, targetPosition = q \<rparr>
        \<and> filter (\<lambda>kv. fst kv = A) (handlePlanDrop A Y q (handlePlanDrop A X p m))
            = [(A, \<lparr> targetFieldPlayerId = Y, targetPosition = q \<rparr>)])"
proof -
  have 0: "planInvariant ([] :: ('a, 'b) PlannedSwaps)" by (simp add: planInvariant_def)
  have 1: "planInvariant (stagePlans drops ([] :: ('a, 'b) PlannedSwaps))"
    by (rule stagePlans_invariant[OF 0])
  have 3: "Map_get (handlePlanDrop B X q (handlePlanDrop A X p m)) A = None
        \<and> Map_get (handlePlanDrop B X q (handlePlanDrop A X p m)) B
            = Some \<lparr> targetFieldPlayerId = X, targetPosition = q \<rparr>
        \<and> plansTargeting X (handlePlanDrop B X q (handlePlanDrop A X p m))
            = [(B, \<lparr> targetFieldPlayerId = X, targetPosition = q \<rparr>)]"
    if "planInvariant m" "A \<noteq> B"
  proof -
    define m1 where "m1 = handlePlanDrop A X p m"
    have e1: "m1 = filter (\<lambda>kv. fst kv \<noteq> A \<and> targetFieldPlayerId (snd kv) \<noteq> X) m
        @ [(A, \<lparr> targetFieldPlayerId = X, targetPosition = p \<rparr>)]"
      unfolding m1_def by (rule handlePlanDrop_eq[OF that(1)])
    have i1: "planInvariant m1"
      unfolding m1_def by (rule handlePlanDrop_invariant[OF that(1)])
    note e2 = handlePlanDrop_eq[OF i1, of B X q]
    define rest where
      "rest = filter (\<lambda>kv. fst kv \<noteq> B \<and> fst kv \<noteq> A \<and> targetFieldPlayerId (snd kv) \<noteq> X) m"
    have r: "handlePlanDrop B X q m1 = rest @ [(B, \<lparr> targetFieldPlayerId = X, targetPosition = q \<rparr>)]"
      unfolding e2 unfolding e1 rest_def by simp (rule filter_cong, auto)
    have fA: "find (\<lambda>kv. fst kv = A) rest = None"
      unfolding rest_def by (rule find_filter_None) simp
    have fB: "find (\<lambda>kv. fst kv = B) rest = None"
      unfolding rest_def by (rule find_filter_None) simp
    have fX: "filter (\<lambda>kv. targetFieldPlayerId (snd kv) = X) rest = []"
      unfolding rest_def by (auto simp: filter_empty_conv)
    show ?thesis
      unfolding m1_def[symmetric] r using that(2)
      by (simp add: Map_get_def plansTargeting_def find_append fA fB fX)
  qed
  have 4: "Map_get (handlePlanDrop A Y q (handlePlanDrop A X p m)) A
            = Some \<lparr> targetFieldPlayerId = Y, targetPosition = q \<rparr>
        \<and> filter (\<lambda>kv. fst kv = A) (handlePlanDrop A Y q (handlePlanDrop A X p m))
            = [(A, \<lparr> targetFieldPlayerId = Y, targetPosition = q \<rparr>)]"
    if "planInvariant m"
  proof -
    define m1 where "m1 = handlePlanDrop A X p m"
    have e1: "m1 = filter (\<lambda>kv. fst kv \<noteq> A \<and> targetFieldPlayerId (snd kv) \<noteq> X) m
        @ [(A, \<lparr> targetFieldPlayerId = X, targetPosition = p \<rparr>)]"
      unfolding m1_def by (rule handlePlanDrop_eq[OF that(1)])
    have i1: "planInvariant m1"
      unfolding m1_def by (rule handlePlanDrop_invariant[OF that(1)])
    note e2 = handlePlanDrop_eq[OF i1, of A Y q]
    define rest where
      "rest = filter (\<lambda>kv. fst kv \<noteq> A \<and> targetFieldPlayerId (snd kv) \<noteq> Y
                 \<and> targetFieldPlayerId (snd kv) \<noteq> X) m"
    have r: "handlePlanDrop A Y q m1 = rest @ [(A, \<lparr> targetFieldPlayerId = Y, targetPosition = q \<rparr>)]"
      unfolding e2 unfolding e1 rest_def by simp (rule filter_cong, auto)
    have fA: "find (\<lambda>kv. fst kv = A) rest = None"
      unfolding rest_def by (rule find_filter_None) simp
    have fK: "filter (\<lambda>kv. fst kv = A) rest = []"
      unfolding rest_def by (auto simp: filter_empty_conv)
    show ?thesis
      unfolding m1_def[symmetric] r
      by (simp add: Map_get_def find_append fA fK)
  qed
  have 2: "planInvariant m \<longrightarrow> planInvariant (handlePlanDrop d t pos m)"
    by (simp add: handlePlanDrop_invariant)
  have 5: "planInvariant (plannedSwaps ui) \<longrightarrow>
        planInvariant (plannedSwaps (handleTogglePlanningMode finished ui))
        \<and> planInvariant (plannedSwaps (snd (handleCancelPlan (games, ui))))
        \<and> planInvariant (plannedSwaps (snd (handleConfirmPlan clock gid (games, ui))))"
    by (auto simp: handleTogglePlanningMode_def handleCancelPlan_def handleConfirmPlan_def
        planInvariant_def split: option.splits)
  from 1 2 3 4 5 show ?thesis by blast
qed

text \<open>
  With a plan of \<open>p5\<close> for \<open>p4\<close> already staged: \<open>p1\<close> for \<open>p2\<close>, then \<open>p3\<close> for \<open>p2\<close>, and
  \<open>p1\<close> for \<open>p2\<close>, then \<open>p1\<close> for \<open>p4\<close>.
\<close>

theorem staged_plan_invariant_witness:
  "planInvariant samplePlan
   \<and> planInvariant (stagePlans sampleDrops [])
   \<and> planInvariant (plannedSwaps swapPlan)
   \<and> planInvariant (plannedSwaps (handleTogglePlanningMode False swapPlan))
   \<and> planInvariant (plannedSwaps (snd (handleCancelPlan (swapGame, swapPlan))))
   \<and> planInvariant (plannedSwaps (snd (handleConfirmPlan (tickClock 61000) ''g1'' (swapGame, swapPlan))))
   \<and> stagePlans sampleDrops []
       = [(''p3'', \<lparr> targetFieldPlayerId = ''p4'', targetPosition = Some (20, 20) \<rparr>)]
   \<and> planInvariant (handlePlanDrop ''p1'' ''p2'' (Some (50, 50)) samplePlan)
   \<and> Map_get (handlePlanDrop ''p3'' ''p2'' (Some (50, 50))
                (handlePlanDrop ''p1'' ''p2'' (Some (50, 50)) samplePlan)) ''p1'' = None
   \<and> plansTargeting ''p2'' (handlePlanDrop ''p3'' ''p2'' (Some (50, 50))
                              (handlePlanDrop ''p1'' ''p2'' (Some (50, 50)) samplePlan))
       = [(''p3'', \<lparr> targetFieldPlayerId = ''p2'', targetPosition = Some (50, 50) \<rparr>)]
   \<and> Map_get (handlePlanDrop ''p1'' ''p4'' (Some (20, 20))
                (handlePlanDrop ''p1'' ''p2'' (Some (50, 50)) samplePlan)) ''p1''
       = Some \<lparr> targetFieldPlayerId = ''p4'', targetPosition = Some (20, 20) \<rparr>"
proof -
  have s: "stagePlans sampleDrops []
       = [(''p3'', \<lparr> targetFieldPlayerId = ''p4'', targetPosition = Some (20, 20) \<rparr>)]"
    by code_simp
  have ne: "''p1'' \<noteq> ''p3''" by simp
  have sp: "planInvariant (plannedSwaps swapPlan)"
    by (simp add: planInvariant_def swapPlan_def)
  show ?thesis
    using staged_plan_invariant[where m = samplePlan and drops = sampleDrops
        and d = "''p1''" and t = "''p2''" and pos = "Some (50, 50)"
        and A = "''p1''" and B = "''p3''" and X = "''p2''" and Y = "''p4''"
        and p = "Some (50, 50)" and q = "Some (50, 50)"
        and ui = swapPlan and finished = False and games = swapGame
        and clock = "tickClock 61000" and gid = "''g1''"]
      staged_plan_invariant[where m = samplePlan and drops = sampleDrops
        and d = "''p1''" and t = "''p2''" and pos = "Some (50, 50)"
        and A = "''p1''" and B = "''p3''" and X = "''p2''" and Y = "''p4''"
        and p = "Some (50, 50)" and q = "Some (20, 20)"
        and ui = swapPlan and finished = False and games = swapGame
        and clock = "tickClock 61000" and gid = "''g1''"]
      samplePlan_invariant ne s sp
    by simp
qed

subsection \<open>C7: marking the starters\<close>

text \<open>
  C7, as claimed: on a cold start the entries on the field are marked and all other entries
  keep their \<open>isStarter\<close>. From the kick-off sample (\<open>p1\<close> on the field, nothing played): the
  clock is started and stopped 300 ms later, which banks \<open>Math.round(0.3) = 0\<close> seconds;
  \<open>p1\<close>, a starter, is moved to the bench and \<open>p2\<close> takes the place. The next start is a
  cold start again, and it resets the \<open>isStarter\<close> of \<open>p1\<close>, on the bench, to false.
\<close>

theorem cold_start_resets_others_counterexample:
  "map_option timerElapsedSeconds (findGame (runCalls ''g1'' kickoffGame falseStart) ''g1'') = Some (Some 0)
   \<and> map_option location (findPlayer (runCalls ''g1'' kickoffGame falseStart) ''g1'' ''p1'') = Some Bench
   \<and> map_option isStarter (findPlayer (runCalls ''g1'' kickoffGame falseStart) ''g1'' ''p1'') = Some (Some True)
   \<and> map_option isStarter
        (findPlayer (startGameTimer 5000 ''2025-03-01'' ''10:00'' ''g1''
           (runCalls ''g1'' kickoffGame falseStart)) ''g1'' ''p1'')
       = Some (Some False)"
  by code_simp

text \<open>
  C7, amended. On a start of an unfinished game with nothing banked
  (\<open>timerElapsedSeconds\<close> is 0 or absent), the \<open>isStarter\<close> of every entry becomes true
  if the entry is on the field and false if it is not, whatever it was before. On a start
  with a banked time other than 0, the \<open>isStarter\<close> of every entry keeps its value (an
  absent flag reads as false).
\<close>

theorem cold_start_marks_starters:
  assumes "findGame games gid = Some g"
    and "\<not> orFalse (isExplicitlyFinished g)"
    and "findPlayer games gid p = Some e"
  shows "\<exists>e'. findPlayer (startGameTimer now cd ct gid games) gid p = Some e'
      \<and> (orZero (timerElapsedSeconds g) = 0 \<longrightarrow> isStarter e' = Some (location e = OnField))
      \<and> (orZero (timerElapsedSeconds g) \<noteq> 0 \<longrightarrow> orFalse (isStarter e') = orFalse (isStarter e))"
  using assms(2,3)
  by (simp add: findPlayer_start[OF assms(1)] startedPlayer_def Let_def orFalse_def)

text \<open>
  The kick-off sample, and a paused game with 30 seconds banked whose starter \<open>p1\<close> sits on
  the bench.
\<close>

theorem cold_start_marks_starters_witness:
  "findGame kickoffGame ''g1'' = Some (sampleGame Stopped None 0 False
     [samplePlayer ''p1'' OnField (Some (50, 50)) None, samplePlayer ''p2'' Bench None None])
   \<and> (\<exists>e'. findPlayer (startGameTimer 1000 ''2025-03-01'' ''10:00'' ''g1'' kickoffGame) ''g1'' ''p1'' = Some e'
          \<and> isStarter e' = Some True)
   \<and> (\<exists>e'. findPlayer (startGameTimer 1000 ''2025-03-01'' ''10:00'' ''g1'' kickoffGame) ''g1'' ''p2'' = Some e'
          \<and> isStarter e' = Some False)
   \<and> findGame [pausedGame] ''g1'' = Some pausedGame
   \<and> timerElapsedSeconds pausedGame = Some 30
   \<and> (\<exists>e'. findPlayer (startGameTimer 40000 ''2025-03-01'' ''10:00'' ''g1'' [pausedGame]) ''g1'' ''p1'' = Some e'
          \<and> orFalse (isStarter e') = True)
   \<and> (\<exists>e'. findPlayer (startGameTimer 40000 ''2025-03-01'' ''10:00'' ''g1'' [pausedGame]) ''g1'' ''p2'' = Some e'
          \<and> orFalse (isStarter e') = False)"
proof -
  have nf: "\<not> orFalse (isExplicitlyFinished (sampleGame Stopped None 0 False
     [samplePlayer ''p1'' OnField (Some (50, 50)) None, samplePlayer ''p2'' Bench None None]))"
    "\<not> orFalse (isExplicitlyFinished pausedGame)"
    by (simp_all add: sampleGame_sel orFalse_def pausedGame_def)
  have el: "timerElapsedSeconds pausedGame = Some 30"
    by (simp add: pausedGame_def sampleGame_sel)
  show ?thesis
    using cold_start_marks_starters[OF kickoffGame_find(1) nf(1) kickoffGame_find(2), of 1000 "''2025-03-01''" "''10:00''"]
      cold_start_marks_starters[OF kickoffGame_find(1) nf(1) kickoffGame_find(3), of 1000 "''2025-03-01''" "''10:00''"]
      cold_start_marks_starters[OF pausedGame_find(1) nf(2) pausedGame_find(2), of 40000 "''2025-03-01''" "''10:00''"]
      cold_start_marks_starters[OF pausedGame_find(1) nf(2) pausedGame_find(3), of 40000 "''2025-03-01''" "''10:00''"]
    by (simp add: kickoffGame_find pausedGame_find el sampleGame_sel samplePlayer_sel orZero_def orFalse_def)
qed

subsection \<open>C8: playing time never decreases\<close>

text \<open>
  C8. Along every sequence of calls whose times do not decrease and are not before the
  start of the entry's timer (moves of any player, with any source locations, clock starts
  and stops and the end of the game in between), the \<open>playtimeSeconds\<close> of an entry never
  decreases: its history is a sorted list. A move banks exactly
  \<open>Math.round((now - playtimerStartTime) / 1000)\<close>, the rounded time since the timer was
  started, when the source is the field or inactive and the timer is running, and nothing
  otherwise; that amount is not negative when \<open>now\<close> is not before the start.
  The timer that is banked measures time on the field with the clock running: when the
  sources of the moves are truthful, no call happens at time 0, a running clock has a start
  time, and at first the timer of the entry runs only if the entry is on the field and the
  clock runs, then the same holds after every call of the sequence.
\<close>

theorem playtime_never_decreases:
  assumes "findPlayer games gid p = Some e"
    and "sorted (map callTime calls)"
    and "\<forall>t. playtimerStartTime e = Some t \<longrightarrow> (\<forall>c \<in> set calls. t \<le> callTime c)"
  shows "(\<exists>ps. map (map_option playtimeSeconds) (playerTrace gid p games calls) = map Some ps
            \<and> sorted ps \<and> hd ps = playtimeSeconds e)
    \<and> (\<forall>now src tgt pos.
          (\<exists>e'. findPlayer (movePlayerInGame now gid p src tgt pos games) gid p = Some e'
             \<and> playtimeSeconds e' = playtimeSeconds e
                 + (if (src = OnField \<or> src = Inactive) \<and> truthy (playtimerStartTime e)
                    then Math_round (of_int (now - orZero (playtimerStartTime e)) / 1000) else 0))
          \<and> (orZero (playtimerStartTime e) \<le> now
               \<longrightarrow> 0 \<le> Math_round (of_int (now - orZero (playtimerStartTime e)) / 1000)))
    \<and> (truthful gid games calls \<and> list_all (\<lambda>c. callTime c \<noteq> 0) calls
          \<and> clockStarted games gid \<and> timerOnlyOnField games gid p
        \<longrightarrow> list_all (\<lambda>s. timerOnlyOnField s gid p) (statesAlong gid games calls))"
proof -
  have "\<exists>e'. findPlayer (movePlayerInGame now gid p src tgt pos games) gid p = Some e'
             \<and> playtimeSeconds e' = playtimeSeconds e
                 + (if (src = OnField \<or> src = Inactive) \<and> truthy (playtimerStartTime e)
                    then Math_round (of_int (now - orZero (playtimerStartTime e)) / 1000) else 0)"
    for now src tgt pos
    using assms(1)
    by (simp add: findPlayer_move movedPlayerState_def Let_def banked_def Math_round_of_int_add)
  moreover have "0 \<le> Math_round (of_int (now - orZero (playtimerStartTime e)) / 1000)"
    if "orZero (playtimerStartTime e) \<le> now" for now
    using that unfolding Math_round_millis by simp
  moreover have "list_all (\<lambda>s. timerOnlyOnField s gid p) (statesAlong gid games calls)"
    if "truthful gid games calls \<and> list_all (\<lambda>c. callTime c \<noteq> 0) calls
          \<and> clockStarted games gid \<and> timerOnlyOnField games gid p"
    using that by (intro timer_run) simp_all
  ultimately show ?thesis using playtime_run[OF assms] by blast
qed

text \<open>
  The clock runs since 1000 ms with \<open>p1\<close> on the field: to the bench at 31 s (30 s banked),
  back on, clock stopped at 61.4 s (29 s more), restarted, repositioned, game ended at 80 s.
\<close>

theorem playtime_never_decreases_witness:
  "findPlayer clockGame ''g1'' ''p1'' = Some (samplePlayer ''p1'' OnField (Some (50, 50)) (Some 1000))
   \<and> sorted (map callTime clockCalls)
   \<and> list_all (\<lambda>c. 1000 \<le> callTime c) clockCalls
   \<and> map (map_option playtimeSeconds) (playerTrace ''g1'' ''p1'' clockGame clockCalls)
        = map Some [0, 30, 30, 59, 59, 59, 69]
   \<and> (\<exists>ps. map (map_option playtimeSeconds) (playerTrace ''g1'' ''p1'' clockGame clockCalls) = map Some ps
          \<and> sorted ps)
   \<and> (\<exists>e'. findPlayer (movePlayerInGame 31000 ''g1'' ''p1'' OnField Bench None clockGame) ''g1'' ''p1'' = Some e'
          \<and> playtimeSeconds e' = 30)
   \<and> truthful ''g1'' clockGame clockCalls
   \<and> list_all (\<lambda>c. callTime c \<noteq> 0) clockCalls
   \<and> clockStarted clockGame ''g1''
   \<and> timerOnlyOnField clockGame ''g1'' ''p1''
   \<and> list_all (\<lambda>s. timerOnlyOnField s ''g1'' ''p1'') (statesAlong ''g1'' clockGame clockCalls)"
proof -
  have h3: "\<forall>t. playtimerStartTime (samplePlayer ''p1'' OnField (Some (50, 50)) (Some 1000)) = Some t
      \<longrightarrow> (\<forall>c \<in> set clockCalls. t \<le> callTime c)"
    by (simp add: samplePlayer_sel clockCalls_def)
  have r: "Math_round (rat_of_int (31000 - 1000) / 1000) = 30"
    unfolding Math_round_millis by simp
  note inst = playtime_never_decreases[OF clockGame_find(1) clock_sorted h3]
  from inst have seq: "\<exists>ps. map (map_option playtimeSeconds) (playerTrace ''g1'' ''p1'' clockGame clockCalls) = map Some ps
          \<and> sorted ps"
    by blast
  from inst have "\<exists>e'. findPlayer (movePlayerInGame 31000 ''g1'' ''p1'' OnField Bench None clockGame) ''g1'' ''p1'' = Some e'
             \<and> playtimeSeconds e' = playtimeSeconds (samplePlayer ''p1'' OnField (Some (50, 50)) (Some 1000))
                 + (if (OnField = OnField \<or> OnField = Inactive)
                       \<and> truthy (playtimerStartTime (samplePlayer ''p1'' OnField (Some (50, 50)) (Some 1000)))
                    then Math_round (of_int (31000 - orZero (playtimerStartTime (samplePlayer ''p1'' OnField (Some (50, 50)) (Some 1000)))) / 1000) else 0)"
    by blast
  then have step: "\<exists>e'. findPlayer (movePlayerInGame 31000 ''g1'' ''p1'' OnField Bench None clockGame) ''g1'' ''p1'' = Some e'
          \<and> playtimeSeconds e' = 30"
    using r by (simp add: samplePlayer_sel truthy_def orZero_def)
  have times: "list_all (\<lambda>c. 1000 \<le> callTime c) clockCalls"
    by (simp add: clockCalls_def)
  have tr: "truthful ''g1'' clockGame clockCalls"
    by code_simp
  have nz: "list_all (\<lambda>c. callTime c \<noteq> 0) clockCalls"
    by (simp add: clockCalls_def)
  have cs: "clockStarted clockGame ''g1''"
    by (simp add: clockStarted_def clockGame_find runningGame_def sampleGame_sel truthy_def)
  have ti: "timerOnlyOnField clockGame ''g1'' ''p1''"
    by (simp add: timerOnlyOnField_def clockGame_find samplePlayer_sel)
  from inst tr nz cs ti
  have along: "list_all (\<lambda>s. timerOnlyOnField s ''g1'' ''p1'') (statesAlong ''g1'' clockGame clockCalls)"
    by blast
  show ?thesis
    using clockGame_find(1) clock_sorted times clock_trace seq step tr nz cs ti along by blast
qed

subsection \<open>C9: a move to the location the player is at\<close>

text \<open>
  C9, as claimed: a move whose target is the entry's location changes neither location,
  position, playing time, timer start nor counters. On the running sample game \<open>p1\<close> is on
  the field at (50, 50), its timer running since 1000 ms: the move from the field to the field
  at 31000 ms with the coordinate (10, 10), which is what a drop on a free spot of the
  field calls, moves the player to (10, 10), banks 30 seconds and restarts the timer at
  31000.
\<close>

theorem same_field_move_counterexample:
  "findPlayer clockGame ''g1'' ''p1'' = Some (samplePlayer ''p1'' OnField (Some (50, 50)) (Some 1000))
   \<and> map_option location
        (findPlayer (movePlayerInGame 31000 ''g1'' ''p1'' OnField OnField (Some (10, 10)) clockGame)
           ''g1'' ''p1'') = Some OnField
   \<and> map_option position
        (findPlayer (movePlayerInGame 31000 ''g1'' ''p1'' OnField OnField (Some (10, 10)) clockGame)
           ''g1'' ''p1'') = Some (Some (10, 10))
   \<and> map_option playtimeSeconds
        (findPlayer (movePlayerInGame 31000 ''g1'' ''p1'' OnField OnField (Some (10, 10)) clockGame)
           ''g1'' ''p1'') = Some 30
   \<and> map_option playtimerStartTime
        (findPlayer (movePlayerInGame 31000 ''g1'' ''p1'' OnField OnField (Some (10, 10)) clockGame)
           ''g1'' ''p1'') = Some (Some 31000)"
  by (simp add: findPlayer_move clockGame_find movedPlayerState_def Let_def samplePlayer_sel
      truthy_def orZero_def banked_eq)

text \<open>
  C9, amended. A move whose source and target are the entry's location raises no error and
  changes neither the location nor the substitution counters. From the field to the field
  it is a repositioning: the position becomes the coordinate passed (and a running timer is
  banked and restarted, as for any move from the field). From the bench to the bench, or
  inactive to inactive, an entry with no position and no timer start is returned as it is,
  the list of games is unchanged; and the drop handler does not call the move at all when a
  player is dropped on the zone it was dragged from.
\<close>

theorem same_location_move:
  assumes "findPlayer games gid pid = Some e"
  shows "(\<exists>e'. findPlayer (movePlayerInGame now gid pid (location e) (location e) newPos games) gid pid
                 = Some e'
            \<and> location e' = location e
            \<and> subbedOnCount e' = subbedOnCount e \<and> subbedOffCount e' = subbedOffCount e
            \<and> (location e = OnField \<longrightarrow> position e' = newPos)
            \<and> (location e = OnField \<and> truthy (playtimerStartTime e) \<longrightarrow>
                 playtimeSeconds e'
                   = banked (playtimeSeconds e) now (orZero (playtimerStartTime e))
                 \<and> playtimerStartTime e' = (if gameRunning games gid then Some now else None)))
       \<and> (location e \<noteq> OnField \<and> position e = None \<and> playtimerStartTime e = None \<longrightarrow>
            movePlayerInGame now gid pid (location e) (location e) newPos games = games)
       \<and> (itemId item = pid \<and> itemLocation item = location e \<and> location e \<noteq> OnField \<longrightarrow>
            handleDropInGame clock planning dims gid item (location e) x y games = games)"
proof -
  have 1: "\<exists>e'. findPlayer (movePlayerInGame now gid pid (location e) (location e) newPos games) gid pid
                 = Some e'
            \<and> location e' = location e
            \<and> subbedOnCount e' = subbedOnCount e \<and> subbedOffCount e' = subbedOffCount e
            \<and> (location e = OnField \<longrightarrow> position e' = newPos)
            \<and> (location e = OnField \<and> truthy (playtimerStartTime e) \<longrightarrow>
                 playtimeSeconds e'
                   = banked (playtimeSeconds e) now (orZero (playtimerStartTime e))
                 \<and> playtimerStartTime e' = (if gameRunning games gid then Some now else None))"
    using assms by (simp add: findPlayer_move movedPlayerState_def Let_def)
  have 2: "movePlayerInGame now gid pid (location e) (location e) newPos games = games"
    if "location e \<noteq> OnField \<and> position e = None \<and> playtimerStartTime e = None"
  proof (rule move_unchanged[OF assms])
    show "movedPlayerState now (gameRunning games gid) (location e) (location e) newPos e = e"
      using that by (cases e) (simp add: movedPlayerState_def Let_def truthy_def)
  qed
  have 3: "handleDropInGame clock planning dims gid item (location e) x y games = games"
    if "itemId item = pid \<and> itemLocation item = location e \<and> location e \<noteq> OnField"
    using that
    by (cases "location e") (auto simp: handleDropInGame_def Let_def split: option.splits)
  from 1 2 3 show ?thesis by blast
qed

text \<open>
  On the running sample game: \<open>p2\<close> dropped on the bench it sits on, and \<open>p1\<close> repositioned
  on the field.
\<close>

theorem same_location_move_witness:
  "findPlayer clockGame ''g1'' ''p2'' = Some (samplePlayer ''p2'' Bench None None)
   \<and> movePlayerInGame 31000 ''g1'' ''p2'' Bench Bench None clockGame = clockGame
   \<and> handleDropInGame (tickClock 31000) False (300, 400) ''g1'' benchItem Bench None None clockGame = clockGame
   \<and> findPlayer clockGame ''g1'' ''p1'' = Some (samplePlayer ''p1'' OnField (Some (50, 50)) (Some 1000))
   \<and> (\<exists>e'. findPlayer (movePlayerInGame 31000 ''g1'' ''p1'' OnField OnField (Some (10, 10)) clockGame)
               ''g1'' ''p1'' = Some e'
          \<and> location e' = OnField
          \<and> subbedOnCount e' = 0 \<and> subbedOffCount e' = 0
          \<and> position e' = Some (10, 10)
          \<and> playtimeSeconds e' = 30 \<and> playtimerStartTime e' = Some 31000)"
  using same_location_move[OF clockGame_find(2), where item = benchItem and now = 31000
        and newPos = None and clock = "tickClock 31000" and planning = False and dims = "(300, 400)"
        and x = None and y = None]
    same_location_move[OF clockGame_find(1), where item = benchItem and now = 31000
        and newPos = "Some (10, 10)" and clock = "tickClock 31000" and planning = False
        and dims = "(300, 400)" and x = None and y = None]
  by (simp add: clockGame_find samplePlayer_sel benchItem_def truthy_def orZero_def banked_eq)

subsection \<open>C10: the move trusts the caller's source location\<close>

text \<open>
  C10. \<open>movePlayerInGame\<close> computes the timer banking and the substitution counters from
  the \<open>sourceLocation\<close> argument, never from the stored location: for every stored entry,
  whatever its location and timer, a call with source \<open>'bench'\<close> and target \<open>'field'\<close>
  increments \<open>subbedOnCount\<close>, and a call with source \<open>'bench'\<close> banks nothing
  (\<open>playtimeSeconds\<close> stays as it was), also when the entry is stored on the field with a
  running timer.
\<close>

theorem move_trusts_sourceLocation:
  assumes "findPlayer games gid pid = Some e"
  shows "(\<exists>e'. findPlayer (movePlayerInGame now gid pid Bench OnField pos games) gid pid = Some e'
            \<and> subbedOnCount e' = subbedOnCount e + 1
            \<and> playtimeSeconds e' = playtimeSeconds e)
       \<and> (\<exists>e'. findPlayer (movePlayerInGame now gid pid Bench tgt pos games) gid pid = Some e'
            \<and> playtimeSeconds e' = playtimeSeconds e)"
  using assms by (simp add: findPlayer_move movedPlayerState_def Let_def)

text \<open>
  An entry stored on the field, its timer running since 1000 ms, moved at 61000 ms with the
  source \<open>'bench'\<close>: counted as a substitution on, and the 60 seconds are not banked.
\<close>

theorem move_trusts_sourceLocation_witness:
  "findPlayer [sampleGame Running (Some 1000) 0 False
                 [samplePlayer ''p1'' OnField (Some (50, 50)) (Some 1000)]] ''g1'' ''p1''
     = Some (samplePlayer ''p1'' OnField (Some (50, 50)) (Some 1000))
   \<and> location (samplePlayer ''p1'' OnField (Some (50, 50)) (Some 1000)) = OnField
   \<and> truthy (playtimerStartTime (samplePlayer ''p1'' OnField (Some (50, 50)) (Some 1000)))
   \<and> (\<exists>e'. findPlayer (movePlayerInGame 61000 ''g1'' ''p1'' Bench OnField (Some (10, 20))
               [sampleGame Running (Some 1000) 0 False
                 [samplePlayer ''p1'' OnField (Some (50, 50)) (Some 1000)]]) ''g1'' ''p1'' = Some e'
          \<and> subbedOnCount e' = 1 \<and> playtimeSeconds e' = 0)"
proof -
  have h: "findPlayer [sampleGame Running (Some 1000) 0 False
                 [samplePlayer ''p1'' OnField (Some (50, 50)) (Some 1000)]] ''g1'' ''p1''
     = Some (samplePlayer ''p1'' OnField (Some (50, 50)) (Some 1000))"
    by (simp add: findPlayer_def findGame_def samplePlayer_sel sampleGame_sel)
  show ?thesis
    using move_trusts_sourceLocation[OF h, of 61000 "Some (10, 20)" OnField]
    by (simp add: h samplePlayer_sel truthy_def)
qed

end
